theory Spec2Isabelle
  imports Main "HOL-Library.AList"
begin

section \<open>Python values, errors and string operations\<close>

text \<open>
  The generator \<^verbatim>\<open>MAPL_GridCompSpecs_ACG.py\<close> works on Python strings, \<^verbatim>\<open>None\<close> and
  (for the rank) integers. A dictionary value is therefore one of three shapes. Strings are
  modelled as \<^typ>\<open>string\<close>: a \<^typ>\<open>char\<close> is a code point below 256, so the model covers
  Latin-1 text, on which \<^verbatim>\<open>str.upper\<close>, \<^verbatim>\<open>str.lower\<close> and \<^verbatim>\<open>str.strip\<close> act as defined
  below.
  An exception is a value of \<open>py_error\<close>; the payload of a \<^verbatim>\<open>KeyError\<close> is not modelled.
\<close>

datatype pyval = PNone | PStr string | PInt int

datatype py_error = KeyError | RuntimeError string | ValueError string | TypeError | AttributeError

type_synonym 'a result = "py_error + 'a"

text \<open>Truth value of an object in \<^verbatim>\<open>if value:\<close>.\<close>

fun truthy :: "pyval \<Rightarrow> bool" where
  "truthy PNone = False"
| "truthy (PStr s) = (s \<noteq> [])"
| "truthy (PInt i) = (i \<noteq> 0)"

text \<open>\<^verbatim>\<open>text + value\<close> where \<^verbatim>\<open>text\<close> is a string: a \<^verbatim>\<open>TypeError\<close> unless \<^verbatim>\<open>value\<close> is one.\<close>

fun str_add :: "string \<Rightarrow> pyval \<Rightarrow> string result" where
  "str_add text (PStr s) = Inr (text @ s)"
| "str_add text PNone = Inl TypeError"
| "str_add text (PInt i) = Inl TypeError"

text \<open>
  Letter case. The lower-case and upper-case letters below code point 256 are the ASCII
  letters and the Latin-1 letters \<open>0xE0\<close> to \<open>0xFE\<close> and \<open>0xC0\<close> to \<open>0xDE\<close> (without the
  signs \<open>0xF7\<close> and \<open>0xD7\<close>); \<^verbatim>\<open>str.lower\<close> and \<^verbatim>\<open>str.upper\<close> map one list to the other,
  place by place. \<^verbatim>\<open>str.upper\<close> also turns \<open>0xDF\<close> into the two letters \<^verbatim>\<open>SS\<close>. It sends
  \<open>0xB5\<close> and \<open>0xFF\<close> to code points above 255, which a \<^typ>\<open>char\<close> cannot hold: the model
  leaves these two as they are (in both cases the result is no ASCII character).
\<close>

definition lowercase :: string where
  "lowercase = ''abcdefghijklmnopqrstuvwxyz'' @
     [CHR 0xE0, CHR 0xE1, CHR 0xE2, CHR 0xE3, CHR 0xE4, CHR 0xE5, CHR 0xE6,
      CHR 0xE7, CHR 0xE8, CHR 0xE9, CHR 0xEA, CHR 0xEB, CHR 0xEC, CHR 0xED,
      CHR 0xEE, CHR 0xEF, CHR 0xF0, CHR 0xF1, CHR 0xF2, CHR 0xF3, CHR 0xF4,
      CHR 0xF5, CHR 0xF6, CHR 0xF8, CHR 0xF9, CHR 0xFA, CHR 0xFB, CHR 0xFC,
      CHR 0xFD, CHR 0xFE]"

definition uppercase :: string where
  "uppercase = ''ABCDEFGHIJKLMNOPQRSTUVWXYZ'' @
     [CHR 0xC0, CHR 0xC1, CHR 0xC2, CHR 0xC3, CHR 0xC4, CHR 0xC5, CHR 0xC6,
      CHR 0xC7, CHR 0xC8, CHR 0xC9, CHR 0xCA, CHR 0xCB, CHR 0xCC, CHR 0xCD,
      CHR 0xCE, CHR 0xCF, CHR 0xD0, CHR 0xD1, CHR 0xD2, CHR 0xD3, CHR 0xD4,
      CHR 0xD5, CHR 0xD6, CHR 0xD8, CHR 0xD9, CHR 0xDA, CHR 0xDB, CHR 0xDC,
      CHR 0xDD, CHR 0xDE]"

definition char_upper :: "char \<Rightarrow> char" where
  "char_upper c = (case map_of (zip lowercase uppercase) c of Some u \<Rightarrow> u | None \<Rightarrow> c)"

definition char_lower :: "char \<Rightarrow> char" where
  "char_lower c = (case map_of (zip uppercase lowercase) c of Some l \<Rightarrow> l | None \<Rightarrow> c)"

definition upper :: "string \<Rightarrow> string" where
  "upper s = concat (map (\<lambda>c. if c = CHR 0xDF then ''SS'' else [char_upper c]) s)"

definition lower :: "string \<Rightarrow> string" where
  "lower s = map char_lower s"

text \<open>
  \<^verbatim>\<open>str.capitalize\<close>: first character upper case, the rest lower case (exact for every
  first character but \<open>0xDF\<close>, \<open>0xB5\<close> and \<open>0xFF\<close>).
\<close>

fun capitalize :: "string \<Rightarrow> string" where
  "capitalize [] = []"
| "capitalize (c # cs) = char_upper c # lower cs"

text \<open>
  The characters below code point 256 that \<^verbatim>\<open>str.strip()\<close> removes (those for which
  \<^verbatim>\<open>str.isspace\<close> holds): tab, LF, VT, FF, CR, FS, GS, RS, US, space, NEL (\<open>0x85\<close>) and the
  no-break space (\<open>0xA0\<close>).
\<close>

definition whitespace :: "char list" where
  "whitespace = [CHR 0x09, CHR 0x0A, CHR 0x0B, CHR 0x0C, CHR 0x0D,
                 CHR 0x1C, CHR 0x1D, CHR 0x1E, CHR 0x1F, CHR 0x20, CHR 0x85, CHR 0xA0]"

text \<open>\<^verbatim>\<open>s.strip(chars)\<close>: drop leading and trailing characters that are in \<^verbatim>\<open>chars\<close>.\<close>

definition strip_chars :: "char list \<Rightarrow> string \<Rightarrow> string" where
  "strip_chars chars s =
     rev (dropWhile (\<lambda>c. c \<in> set chars) (rev (dropWhile (\<lambda>c. c \<in> set chars) s)))"

definition strip :: "string \<Rightarrow> string" where
  "strip s = strip_chars whitespace s"

text \<open>\<^verbatim>\<open>s.split(sep)\<close> for a one-character separator; the result is never empty.\<close>

fun split :: "char \<Rightarrow> string \<Rightarrow> string list" where
  "split sep [] = [[]]"
| "split sep (c # cs) =
     (if c = sep then [] # split sep cs
      else (case split sep cs of [] \<Rightarrow> [[c]] | x # xs \<Rightarrow> (c # x) # xs))"

text \<open>\<^verbatim>\<open>sep.join(xs)\<close>.\<close>

fun join :: "string \<Rightarrow> string list \<Rightarrow> string" where
  "join sep [] = []"
| "join sep [x] = x"
| "join sep (x # y # ys) = x @ sep @ join sep (y # ys)"

text \<open>\<^verbatim>\<open>s.replace(c, r)\<close> for a one-character pattern.\<close>

definition replace :: "char \<Rightarrow> string \<Rightarrow> string \<Rightarrow> string" where
  "replace c r s = concat (map (\<lambda>x. if x = c then r else [x]) s)"

text \<open>\<^verbatim>\<open>str(n)\<close> for an integer, and \<^verbatim>\<open>str(value)\<close> for a dictionary value.\<close>

fun str_nat :: "nat \<Rightarrow> string" where
  "str_nat n = (if n < 10 then [''0123456789'' ! n]
                else str_nat (n div 10) @ [''0123456789'' ! (n mod 10)])"

definition str_int :: "int \<Rightarrow> string" where
  "str_int i = (if i < 0 then ''-'' @ str_nat (nat (- i)) else str_nat (nat i))"

fun str :: "pyval \<Rightarrow> string" where
  "str PNone = ''None''"
| "str (PStr s) = s"
| "str (PInt i) = str_int i"

section \<open>Emit functions\<close>

definition identity_emit :: "string \<Rightarrow> pyval" where
  "identity_emit value = PStr value"

definition string_emit :: "string \<Rightarrow> pyval" where
  "string_emit value = (if value \<noteq> [] then PStr ([CHR 0x27] @ value @ [CHR 0x27]) else PNone)"

definition array_emit :: "string \<Rightarrow> pyval" where
  "array_emit value = (if value \<noteq> [] then PStr (''['' @ value @ '']'') else PNone)"

definition mangle_name :: "string \<Rightarrow> pyval" where
  "mangle_name name =
     (if name \<noteq> [] then string_emit (replace (CHR ''*'') ([CHR 0x27] @ ''//trim(comp_name)//'' @ [CHR 0x27]) name) else PNone)"

definition make_internal_name :: "string \<Rightarrow> pyval" where
  "make_internal_name name = (if name \<noteq> [] then PStr (replace (CHR ''*'') [] name) else PNone)"

definition make_entry_emit :: "(string \<times> string) list \<Rightarrow> string \<Rightarrow> pyval" where
  "make_entry_emit dictionary key =
     (case map_of dictionary key of Some v \<Rightarrow> PStr v | None \<Rightarrow> PNone)"

definition DIMS_OPTIONS :: "(string \<times> int \<times> string) list" where
  "DIMS_OPTIONS = [(''MAPL_DimsVertOnly'', 1, ''z''), (''MAPL_DimsHorzOnly'', 2, ''xy''),
                   (''MAPL_DimsHorzVert'', 3, ''xyz'')]"

definition DIMS_EMIT :: "string \<Rightarrow> pyval" where
  "DIMS_EMIT = make_entry_emit (map (\<lambda>(entry, _, alias). (alias, entry)) DIMS_OPTIONS)"

definition RANKS :: "(string \<times> int) list" where
  "RANKS = map (\<lambda>(entry, rank, _). (entry, rank)) DIMS_OPTIONS"

definition VLOCATION_EMIT :: "string \<Rightarrow> pyval" where
  "VLOCATION_EMIT = make_entry_emit [(''C'', ''MAPL_VlocationCenter''),
     (''E'', ''MAPL_VlocationEdge''), (''N'', ''MAPL_VlocationNone'')]"

definition RESTART_EMIT :: "string \<Rightarrow> pyval" where
  "RESTART_EMIT = make_entry_emit [(''OPT'', ''MAPL_RestartOptional''),
     (''SKIP'', ''MAPL_RestartSkip''), (''REQ'', ''MAPL_RestartRequired''),
     (''BOOT'', ''MAPL_RestartBoot''), (''SKIPI'', ''MAPL_RestartSkipInitial'')]"

definition ADD2EXPORT_EMIT :: "string \<Rightarrow> pyval" where
  "ADD2EXPORT_EMIT = make_entry_emit [(''T'', ''.true.''), (''F'', ''.false.'')]"

section \<open>The option schema\<close>

text \<open>
  \<^verbatim>\<open>Option\<close> is a Python \<^verbatim>\<open>Enum\<close> built from a dictionary of names. Names whose value
  tuples are equal denote one member: the first name is the canonical one and the later
  ones (\<^verbatim>\<open>NAME\<close>, \<^verbatim>\<open>LONG NAME\<close>, \<^verbatim>\<open>VLOC\<close>, \<^verbatim>\<open>ADDEXP\<close>, \<^verbatim>\<open>UNGRID\<close>, \<^verbatim>\<open>FRIEND2\<close>,
  \<^verbatim>\<open>PREC\<close>, \<^verbatim>\<open>NUMSUBS\<close>, \<^verbatim>\<open>AVINT\<close>, \<^verbatim>\<open>COND\<close>) are aliases of it. The datatype has one
  constructor for each member, and \<open>Option_getitem\<close> is the lookup \<^verbatim>\<open>Option[name]\<close>
  over all names.
\<close>

datatype Option =
    SHORT_NAME | LONG_NAME | UNITS | DIMS | VLOCATION | ADD2EXPORT | RESTART | UNGRIDDED
  | FRIENDLYTO | PRECISION | NUM_SUBTILES | AVERAGING_INTERVAL | REFRESH_INTERVAL | HALOWIDTH
  | DEFAULT | FIELD_TYPE | STAGGERING | ROTATION | DATATYPE | ATTR_INAMES | ATT_RNAMES
  | ATTR_IVALUES | ATTR_RVALUES | UNGRIDDED_NAME | UNGRIDDED_UNIT | UNGRIDDED_COORDS
  | CONDITION | ALLOC | MANGLED_NAME | INTERNAL_NAME | RANK

text \<open>The members in definition order, as \<^verbatim>\<open>list(cls)\<close> gives them.\<close>

definition Option_members :: "Option list" where
  "Option_members =
     [SHORT_NAME, LONG_NAME, UNITS, DIMS, VLOCATION, ADD2EXPORT, RESTART, UNGRIDDED,
      FRIENDLYTO, PRECISION, NUM_SUBTILES, AVERAGING_INTERVAL, REFRESH_INTERVAL, HALOWIDTH,
      DEFAULT, FIELD_TYPE, STAGGERING, ROTATION, DATATYPE, ATTR_INAMES, ATT_RNAMES,
      ATTR_IVALUES, ATTR_RVALUES, UNGRIDDED_NAME, UNGRIDDED_UNIT, UNGRIDDED_COORDS,
      CONDITION, ALLOC, MANGLED_NAME, INTERNAL_NAME, RANK]"

definition Option_names :: "(string \<times> Option) list" where
  "Option_names =
     [(''SHORT_NAME'', SHORT_NAME), (''NAME'', SHORT_NAME),
      (''LONG_NAME'', LONG_NAME), (''LONG NAME'', LONG_NAME),
      (''UNITS'', UNITS), (''DIMS'', DIMS),
      (''VLOCATION'', VLOCATION), (''VLOC'', VLOCATION),
      (''ADD2EXPORT'', ADD2EXPORT), (''ADDEXP'', ADD2EXPORT),
      (''RESTART'', RESTART),
      (''UNGRIDDED'', UNGRIDDED), (''UNGRID'', UNGRIDDED),
      (''FRIENDLYTO'', FRIENDLYTO), (''FRIEND2'', FRIENDLYTO),
      (''PRECISION'', PRECISION), (''PREC'', PRECISION),
      (''NUM_SUBTILES'', NUM_SUBTILES), (''NUMSUBS'', NUM_SUBTILES),
      (''AVERAGING_INTERVAL'', AVERAGING_INTERVAL), (''AVINT'', AVERAGING_INTERVAL),
      (''REFRESH_INTERVAL'', REFRESH_INTERVAL), (''HALOWIDTH'', HALOWIDTH),
      (''DEFAULT'', DEFAULT), (''FIELD_TYPE'', FIELD_TYPE), (''STAGGERING'', STAGGERING),
      (''ROTATION'', ROTATION), (''DATATYPE'', DATATYPE), (''ATTR_INAMES'', ATTR_INAMES),
      (''ATT_RNAMES'', ATT_RNAMES), (''ATTR_IVALUES'', ATTR_IVALUES),
      (''ATTR_RVALUES'', ATTR_RVALUES), (''UNGRIDDED_NAME'', UNGRIDDED_NAME),
      (''UNGRIDDED_UNIT'', UNGRIDDED_UNIT), (''UNGRIDDED_COORDS'', UNGRIDDED_COORDS),
      (''CONDITION'', CONDITION), (''COND'', CONDITION), (''ALLOC'', ALLOC),
      (''MANGLED_NAME'', MANGLED_NAME), (''INTERNAL_NAME'', INTERNAL_NAME), (''RANK'', RANK)]"

definition Option_getitem :: "string \<Rightarrow> Option option" where
  "Option_getitem n = map_of Option_names n"

text \<open>\<^verbatim>\<open>option.name\<close>: the canonical name of a member.\<close>

fun name :: "Option \<Rightarrow> string" where
  "name SHORT_NAME = ''SHORT_NAME''" | "name LONG_NAME = ''LONG_NAME''"
| "name UNITS = ''UNITS''" | "name DIMS = ''DIMS''" | "name VLOCATION = ''VLOCATION''"
| "name ADD2EXPORT = ''ADD2EXPORT''" | "name RESTART = ''RESTART''"
| "name UNGRIDDED = ''UNGRIDDED''" | "name FRIENDLYTO = ''FRIENDLYTO''"
| "name PRECISION = ''PRECISION''" | "name NUM_SUBTILES = ''NUM_SUBTILES''"
| "name AVERAGING_INTERVAL = ''AVERAGING_INTERVAL''"
| "name REFRESH_INTERVAL = ''REFRESH_INTERVAL''" | "name HALOWIDTH = ''HALOWIDTH''"
| "name DEFAULT = ''DEFAULT''" | "name FIELD_TYPE = ''FIELD_TYPE''"
| "name STAGGERING = ''STAGGERING''" | "name ROTATION = ''ROTATION''"
| "name DATATYPE = ''DATATYPE''" | "name ATTR_INAMES = ''ATTR_INAMES''"
| "name ATT_RNAMES = ''ATT_RNAMES''" | "name ATTR_IVALUES = ''ATTR_IVALUES''"
| "name ATTR_RVALUES = ''ATTR_RVALUES''" | "name UNGRIDDED_NAME = ''UNGRIDDED_NAME''"
| "name UNGRIDDED_UNIT = ''UNGRIDDED_UNIT''" | "name UNGRIDDED_COORDS = ''UNGRIDDED_COORDS''"
| "name CONDITION = ''CONDITION''" | "name ALLOC = ''ALLOC''"
| "name MANGLED_NAME = ''MANGLED_NAME''" | "name INTERNAL_NAME = ''INTERNAL_NAME''"
| "name RANK = ''RANK''"

text \<open>The four attributes \<^verbatim>\<open>OptionType.__init__\<close> sets from the value tuple.\<close>

fun name_key :: "Option \<Rightarrow> string" where
  "name_key SHORT_NAME = ''short_name''" | "name_key LONG_NAME = ''long_name''"
| "name_key UNITS = ''units''" | "name_key DIMS = ''dims''"
| "name_key VLOCATION = ''vlocation''" | "name_key ADD2EXPORT = ''add2export''"
| "name_key RESTART = ''restart''" | "name_key UNGRIDDED = ''ungridded''"
| "name_key FRIENDLYTO = ''friendlyto''" | "name_key PRECISION = ''precision''"
| "name_key NUM_SUBTILES = ''num_subtitles''"
| "name_key AVERAGING_INTERVAL = ''averaging_interval''"
| "name_key REFRESH_INTERVAL = ''refresh_interval''" | "name_key HALOWIDTH = ''halowidth''"
| "name_key DEFAULT = ''default''" | "name_key FIELD_TYPE = ''field_type''"
| "name_key STAGGERING = ''staggering''" | "name_key ROTATION = ''rotation''"
| "name_key DATATYPE = ''datatype''" | "name_key ATTR_INAMES = ''attr_inames''"
| "name_key ATT_RNAMES = ''att_rnames''" | "name_key ATTR_IVALUES = ''attr_ivalues''"
| "name_key ATTR_RVALUES = ''attr_rvalues''" | "name_key UNGRIDDED_NAME = ''ungridded_name''"
| "name_key UNGRIDDED_UNIT = ''ungridded_unit''"
| "name_key UNGRIDDED_COORDS = ''ungridded_coords''"
| "name_key CONDITION = ''condition''" | "name_key ALLOC = ''alloc''"
| "name_key MANGLED_NAME = ''mangled_name''" | "name_key INTERNAL_NAME = ''internal_name''"
| "name_key RANK = ''rank''"

fun emit :: "Option \<Rightarrow> string \<Rightarrow> pyval" where
  "emit SHORT_NAME = mangle_name"
| "emit LONG_NAME = string_emit"
| "emit UNITS = string_emit"
| "emit DIMS = DIMS_EMIT"
| "emit VLOCATION = VLOCATION_EMIT"
| "emit ADD2EXPORT = ADD2EXPORT_EMIT"
| "emit RESTART = RESTART_EMIT"
| "emit UNGRIDDED = array_emit"
| "emit FRIENDLYTO = string_emit"
| "emit MANGLED_NAME = mangle_name"
| "emit INTERNAL_NAME = make_internal_name"
| "emit _ = identity_emit"

fun mandatory :: "Option \<Rightarrow> bool" where
  "mandatory SHORT_NAME = True"
| "mandatory LONG_NAME = True"
| "mandatory UNITS = True"
| "mandatory DIMS = True"
| "mandatory _ = False"

fun output_flag :: "Option \<Rightarrow> bool" where
  "output_flag CONDITION = False"
| "output_flag ALLOC = False"
| "output_flag MANGLED_NAME = False"
| "output_flag INTERNAL_NAME = False"
| "output_flag RANK = False"
| "output_flag _ = True"

definition get_mandatory_options :: "Option list" where
  "get_mandatory_options = filter mandatory Option_members"

section \<open>Dictionaries of option values\<close>

text \<open>
  \<^verbatim>\<open>option_values\<close> is a Python dictionary from members of \<^verbatim>\<open>Option\<close> to values. It keeps
  insertion order, and assigning to a key that is already there keeps the key's place:
  an association list with \<^const>\<open>AList.update\<close>. \<^verbatim>\<open>d[k]\<close> raises \<^verbatim>\<open>KeyError\<close> on a
  missing key, \<^verbatim>\<open>d.get(k)\<close> gives \<^verbatim>\<open>None\<close>.
\<close>

type_synonym option_values = "(Option \<times> pyval) list"

definition getitem :: "option_values \<Rightarrow> Option \<Rightarrow> pyval result" where
  "getitem values k = (case map_of values k of None \<Rightarrow> Inl KeyError | Some v \<Rightarrow> Inr v)"

definition get :: "option_values \<Rightarrow> Option \<Rightarrow> pyval" where
  "get values k = (case map_of values k of None \<Rightarrow> PNone | Some v \<Rightarrow> v)"

definition contains :: "option_values \<Rightarrow> Option \<Rightarrow> bool" where
  "contains values k = (map_of values k \<noteq> None)"

section \<open>The rule engine\<close>

text \<open>An operand of a relation is a member of \<^verbatim>\<open>Option\<close>, looked up in the values, or a literal.\<close>

datatype operand = Attr Option | Lit pyval

fun operand_value :: "operand \<Rightarrow> option_values \<Rightarrow> pyval result" where
  "operand_value (Attr k) values = getitem values k"
| "operand_value (Lit v) values = Inr v"

definition relation ::
  "(pyval \<Rightarrow> pyval \<Rightarrow> bool) \<Rightarrow> operand \<Rightarrow> operand \<Rightarrow> option_values \<Rightarrow> bool result" where
  "relation relop lhs rhs values =
     (case operand_value lhs values of Inl e \<Rightarrow> Inl e
      | Inr l \<Rightarrow> (case operand_value rhs values of Inl e \<Rightarrow> Inl e
          | Inr r \<Rightarrow> Inr (relop l r)))"

definition operator_eq :: "pyval \<Rightarrow> pyval \<Rightarrow> bool" where
  "operator_eq l r = (l = r)"

definition operator_ne :: "pyval \<Rightarrow> pyval \<Rightarrow> bool" where
  "operator_ne l r = (l \<noteq> r)"

definition equals :: "operand \<Rightarrow> operand \<Rightarrow> option_values \<Rightarrow> bool result" where
  "equals = relation operator_eq"

definition does_not_equal :: "operand \<Rightarrow> operand \<Rightarrow> option_values \<Rightarrow> bool result" where
  "does_not_equal = relation operator_ne"

text \<open>The named tuple \<^verbatim>\<open>condition(option, rel, expected, message)\<close>.\<close>

datatype condition =
  Condition Option "operand \<Rightarrow> operand \<Rightarrow> option_values \<Rightarrow> bool result" operand string

text \<open>
  The joiner is the builtin \<^verbatim>\<open>all\<close>, the builtin \<^verbatim>\<open>any\<close>, or something else, which
  \<^verbatim>\<open>Rule.__init__\<close> refuses.
\<close>

datatype joiner = Joiner_all | Joiner_any | Joiner_other

fun joiners :: "joiner \<Rightarrow> (string \<times> bool) option" where
  "joiners Joiner_all = Some ('' and '', False)"
| "joiners Joiner_any = Some ('' or '', True)"
| "joiners Joiner_other = None"

fun apply_joiner :: "joiner \<Rightarrow> bool list \<Rightarrow> bool" where
  "apply_joiner Joiner_all results = list_all (\<lambda>r. r) results"
| "apply_joiner Joiner_any results = list_ex (\<lambda>r. r) results"
| "apply_joiner Joiner_other results = False"

record Rule =
  processed_conditions :: "condition list"
  joiner :: joiner
  rule_joiner :: string
  break_on_true :: bool

definition Rule_init :: "condition list \<Rightarrow> joiner \<Rightarrow> Rule result" where
  "Rule_init conditions j =
     (case joiners j of
        None \<Rightarrow> Inl (ValueError ''Invalid joiner'')
      | Some (rj, b) \<Rightarrow>
          Inr \<lparr>processed_conditions = conditions, joiner = j, rule_joiner = rj,
               break_on_true = b\<rparr>)"

definition predicate ::
  "Option \<Rightarrow> (operand \<Rightarrow> operand \<Rightarrow> option_values \<Rightarrow> bool result) \<Rightarrow> operand
     \<Rightarrow> option_values \<Rightarrow> bool result" where
  "predicate option rel expected = rel (Attr option) expected"

text \<open>The \<^verbatim>\<open>for\<close> loop of \<^verbatim>\<open>rule_check\<close>, carrying \<^verbatim>\<open>messages\<close> and \<^verbatim>\<open>results\<close>.\<close>

fun rule_loop ::
  "bool \<Rightarrow> condition list \<Rightarrow> option_values \<Rightarrow> string list \<Rightarrow> bool list
     \<Rightarrow> (string list \<times> bool list) result" where
  "rule_loop brk [] values messages results = Inr (messages, results)"
| "rule_loop brk (Condition option rel expected message # rest) values messages results =
     (case predicate option rel expected values of
        Inl e \<Rightarrow> Inl e
      | Inr test_result \<Rightarrow>
          (if test_result then
             (if brk then
                Inr (messages @ [name_key option @ '' '' @ message], results @ [test_result])
              else rule_loop brk rest values
                     (messages @ [name_key option @ '' '' @ message]) (results @ [test_result]))
           else rule_loop brk rest values messages (results @ [test_result])))"

definition rule_check :: "Rule \<Rightarrow> option_values \<Rightarrow> unit result" where
  "rule_check rule values =
     (case rule_loop (break_on_true rule) (processed_conditions rule) values [] [] of
        Inl e \<Rightarrow> Inl e
      | Inr (messages, results) \<Rightarrow>
          (if apply_joiner (joiner rule) results
           then Inl (RuntimeError (join (rule_joiner rule) messages))
           else Inr ()))"

definition check :: "Rule \<Rightarrow> option_values \<Rightarrow> unit result" where
  "check rule values = rule_check rule values"

fun check_rules :: "Rule list \<Rightarrow> option_values \<Rightarrow> unit result" where
  "check_rules [] values = Inr ()"
| "check_rules (rule # rest) values =
     (case check rule values of Inl e \<Rightarrow> Inl e | Inr _ \<Rightarrow> check_rules rest values)"

definition check_option_values :: "option_values \<Rightarrow> unit result" where
  "check_option_values values =
     (case Rule_init
             [Condition DIMS equals (Lit (PStr ''MAPL_DimsHorzVert''))
                ''is equal to MAPL_DimsHorzVert'',
              Condition VLOCATION equals (Lit (PStr ''MAPL_VlocationNone''))
                ''is equal to MAPL_VlocationNone''] Joiner_all of
        Inl e \<Rightarrow> Inl e
      | Inr rule1 \<Rightarrow>
          (case Rule_init
                  [Condition DIMS equals (Lit (PStr ''MAPL_DimsHorzOnly''))
                     ''is equal to MAPL_DimsHorzOnly'',
                   Condition VLOCATION does_not_equal (Lit (PStr ''MAPL_VlocationNone''))
                     ''is not equal to MAPL_VlocationNone''] Joiner_all of
             Inl e \<Rightarrow> Inl e
           | Inr rule2 \<Rightarrow> check_rules [rule1, rule2] values))"

section \<open>Digestion\<close>

text \<open>
  \<^verbatim>\<open>compute_rank\<close>: the extra rank is evaluated first, then \<^verbatim>\<open>RANKS[dims]\<close>, which raises
  \<^verbatim>\<open>KeyError\<close> when \<^verbatim>\<open>dims\<close> is not one of the three long-form tokens.
\<close>

definition compute_rank :: "pyval \<Rightarrow> pyval \<Rightarrow> int result" where
  "compute_rank dims ungridded =
     (case (if truthy ungridded then
              (case ungridded of
                 PStr u \<Rightarrow> Inr (int (length (split (CHR '','') (strip_chars '']['' u))))
               | _ \<Rightarrow> Inl AttributeError)
            else Inr 0) of
        Inl e \<Rightarrow> Inl e
      | Inr extra_rank \<Rightarrow>
          (case dims of
             PStr d \<Rightarrow> (case map_of RANKS d of None \<Rightarrow> Inl KeyError
                        | Some r \<Rightarrow> Inr (r + extra_rank))
           | _ \<Rightarrow> Inl KeyError))"

text \<open>
  A raw row is a dictionary from column names to cell strings, read in order. The loop over
  the columns carries \<^verbatim>\<open>dims\<close>, \<^verbatim>\<open>ungridded\<close> and \<^verbatim>\<open>option_values\<close>.
\<close>

type_synonym spec = "(string \<times> string) list"

text \<open>The body of the loop, once the column name has been resolved to a member.\<close>

definition column_step ::
  "Option \<Rightarrow> string \<Rightarrow> pyval \<times> pyval \<times> option_values \<Rightarrow> pyval \<times> pyval \<times> option_values" where
  "column_step option column_value st =
     (case st of (dims, ungridded, values) \<Rightarrow>
        (if option = SHORT_NAME then
           (dims, ungridded,
            AList.update INTERNAL_NAME (emit INTERNAL_NAME column_value)
              (AList.update MANGLED_NAME (emit MANGLED_NAME column_value)
                (AList.update option (emit option column_value) values)))
         else if option = DIMS then
           (emit option column_value, ungridded,
            AList.update option (emit option column_value) values)
         else if option = UNGRIDDED then
           (dims, emit option column_value,
            AList.update option (emit option column_value) values)
         else
           (dims, ungridded, AList.update option (emit option column_value) values)))"

fun process_columns ::
  "spec \<Rightarrow> pyval \<times> pyval \<times> option_values \<Rightarrow> (pyval \<times> pyval \<times> option_values) result" where
  "process_columns [] st = Inr st"
| "process_columns ((column, column_value) # rest) st =
     (case Option_getitem (upper column) of
        None \<Rightarrow> Inl KeyError
      | Some option \<Rightarrow> process_columns rest (column_step option column_value st))"

fun check_mandatory :: "Option list \<Rightarrow> option_values \<Rightarrow> unit result" where
  "check_mandatory [] values = Inr ()"
| "check_mandatory (option # rest) values =
     (if \<not> contains values option
      then Inl (RuntimeError (name option @ '' is missing from spec.''))
      else check_mandatory rest values)"

text \<open>The body of the loop over the specs of a category: one raw row to one record.\<close>

definition digest_spec :: "spec \<Rightarrow> option_values result" where
  "digest_spec spec =
     (case process_columns spec (PNone, PNone, []) of
        Inl e \<Rightarrow> Inl e
      | Inr (dims, ungridded, values) \<Rightarrow>
          (case check_mandatory get_mandatory_options values of
             Inl e \<Rightarrow> Inl e
           | Inr _ \<Rightarrow>
               (case compute_rank dims ungridded of
                  Inl e \<Rightarrow> Inl e
                | Inr rank \<Rightarrow>
                    (case check_option_values (AList.update RANK (PInt rank) values) of
                       Inl e \<Rightarrow> Inl e
                     | Inr _ \<Rightarrow> Inr (AList.update RANK (PInt rank) values)))))"

fun digest_category :: "spec list \<Rightarrow> option_values list result" where
  "digest_category [] = Inr []"
| "digest_category (spec # rest) =
     (case digest_spec spec of
        Inl e \<Rightarrow> Inl e
      | Inr values \<Rightarrow>
          (case digest_category rest of Inl e \<Rightarrow> Inl e
           | Inr category_specs \<Rightarrow> Inr (values # category_specs)))"

fun digest :: "(string \<times> spec list) list \<Rightarrow> (string \<times> option_values list) list result" where
  "digest [] = Inr []"
| "digest ((category, specs) # rest) =
     (case digest_category specs of
        Inl e \<Rightarrow> Inl e
      | Inr category_specs \<Rightarrow>
          (case digest rest of Inl e \<Rightarrow> Inl e
           | Inr digested_specs \<Rightarrow> Inr ((category, category_specs) # digested_specs)))"

section \<open>Boolean canonicalisation\<close>

definition TRUE_VALUE :: string where
  "TRUE_VALUE = ''.true.''"

definition FALSE_VALUE :: string where
  "FALSE_VALUE = ''.false.''"

definition TRUE_VALUES :: "string list" where
  "TRUE_VALUES = [TRUE_VALUE, ''t'', ''true'', ''.t.'', ''yes'', ''y'', ''si'', ''oui'', ''sim'']"

definition FALSE_VALUES :: "string list" where
  "FALSE_VALUES =
     [FALSE_VALUE, ''f'', ''false'', ''.f.'', ''no'', ''n'', ''no'', ''non'', ''nao'']"

text \<open>
  The argument is a string or \<^verbatim>\<open>None\<close>; an integer has no \<^verbatim>\<open>strip\<close> method.
\<close>

fun get_fortran_logical :: "pyval \<Rightarrow> string result" where
  "get_fortran_logical PNone =
     Inl (ValueError ([CHR 0x27] @ ''None'' @ [CHR 0x27] @
                      '' is not valid for get_fortran_logical.''))"
| "get_fortran_logical (PStr value_in) =
     (if lower (strip value_in) \<in> set TRUE_VALUES then Inr TRUE_VALUE
      else if lower (strip value_in) \<in> set FALSE_VALUES then Inr FALSE_VALUE
      else Inl (ValueError (''Unrecognized logical: '' @ value_in)))"
| "get_fortran_logical (PInt i) = Inl AttributeError"

section \<open>Emission\<close>

text \<open>
  An object of class \<^verbatim>\<open>MAPL_DataSpec\<close>. The emit methods change \<^verbatim>\<open>self.indent\<close>, so each
  of them takes the object and returns the text together with the object as it is left.
\<close>

record MAPL_DataSpec =
  category :: string
  indent :: int
  mangled_name :: pyval
  internal_name :: pyval
  condition :: pyval
  spec_values :: option_values

definition DELIMITER :: string where
  "DELIMITER = '', ''"

definition TERMINATOR :: string where
  "TERMINATOR = ''_RC)''"

definition MAPL_DataSpec_init :: "string \<Rightarrow> option_values \<Rightarrow> MAPL_DataSpec result" where
  "MAPL_DataSpec_init cat values =
     (case getitem values MANGLED_NAME of
        Inl e \<Rightarrow> Inl e
      | Inr m \<Rightarrow>
          (case getitem values INTERNAL_NAME of
             Inl e \<Rightarrow> Inl e
           | Inr i \<Rightarrow>
               Inr \<lparr>category = cat, indent = 3, mangled_name = m, internal_name = i,
                    condition = get values CONDITION, spec_values = values\<rparr>))"

text \<open>\<^verbatim>\<open>" " * n\<close> is empty for a negative \<^verbatim>\<open>n\<close>.\<close>

definition newline :: "MAPL_DataSpec \<Rightarrow> string" where
  "newline self = CHR 0x0A # replicate (nat (indent self)) (CHR '' '')"

definition continue_line :: "MAPL_DataSpec \<Rightarrow> string" where
  "continue_line self = ''&'' @ newline self @ ''& ''"

definition emit_header :: "MAPL_DataSpec \<Rightarrow> (string \<times> MAPL_DataSpec) result" where
  "emit_header self =
     (if truthy (condition self) then
        (case str_add (newline self @ ''if ('') (condition self) of
           Inl e \<Rightarrow> Inl e
         | Inr text \<Rightarrow>
             Inr (text @ '') then'' @ newline (self\<lparr>indent := indent self + 3\<rparr>),
                  self\<lparr>indent := indent self + 3\<rparr>))
      else Inr (newline self, self))"

definition emit_arg :: "MAPL_DataSpec \<Rightarrow> Option \<Rightarrow> string result" where
  "emit_arg self option =
     (if truthy (get (spec_values self) option) then
        (case str_add (name_key option @ ''='') (get (spec_values self) option) of
           Inl e \<Rightarrow> Inl e
         | Inr text \<Rightarrow> Inr (text @ DELIMITER @ continue_line self))
      else Inr [])"

fun emit_args_loop :: "MAPL_DataSpec \<Rightarrow> Option list \<Rightarrow> string \<Rightarrow> string result" where
  "emit_args_loop self [] text = Inr text"
| "emit_args_loop self (option # rest) text =
     (if output_flag option then
        (case emit_arg self option of
           Inl e \<Rightarrow> Inl e
         | Inr arg \<Rightarrow> emit_args_loop self rest (text @ arg))
      else emit_args_loop self rest text)"

definition emit_args :: "MAPL_DataSpec \<Rightarrow> (string \<times> MAPL_DataSpec) result" where
  "emit_args self =
     (case emit_args_loop (self\<lparr>indent := indent self + 5\<rparr>) (map fst (spec_values self))
             (''call MAPL_Add'' @ capitalize (category self) @ ''Spec(gc,'' @
              continue_line (self\<lparr>indent := indent self + 5\<rparr>)) of
        Inl e \<Rightarrow> Inl e
      | Inr text \<Rightarrow>
          Inr (text @ TERMINATOR @ newline (self\<lparr>indent := indent self + 5\<rparr>),
               self\<lparr>indent := indent self + 5 - 5\<rparr>))"

definition emit_trailer :: "bool \<Rightarrow> MAPL_DataSpec \<Rightarrow> (string \<times> MAPL_DataSpec) result" where
  "emit_trailer nullify self =
     (if truthy (condition self) then
        (if nullify then
           (case str_add (newline (self\<lparr>indent := indent self - 3\<rparr>) @ ''else'' @
                          newline (self\<lparr>indent := indent self - 3\<rparr>) @ ''   nullify('')
                         (internal_name self) of
              Inl e \<Rightarrow> Inl e
            | Inr text \<Rightarrow>
                Inr (text @ '')'' @ newline (self\<lparr>indent := indent self - 3\<rparr>) @ ''endif'' @
                     newline (self\<lparr>indent := indent self - 3\<rparr>),
                     self\<lparr>indent := indent self - 3\<rparr>))
         else
           Inr (newline (self\<lparr>indent := indent self - 3\<rparr>) @ ''endif'' @
                newline (self\<lparr>indent := indent self - 3\<rparr>),
                self\<lparr>indent := indent self - 3\<rparr>))
      else Inr (newline self, self))"

text \<open>The registration fragment: header, arguments and trailer, evaluated left to right.\<close>

definition emit_specs :: "MAPL_DataSpec \<Rightarrow> (string \<times> MAPL_DataSpec) result" where
  "emit_specs self =
     (case emit_header self of
        Inl e \<Rightarrow> Inl e
      | Inr (header, self1) \<Rightarrow>
          (case emit_args self1 of
             Inl e \<Rightarrow> Inl e
           | Inr (args, self2) \<Rightarrow>
               (case emit_trailer False self2 of
                  Inl e \<Rightarrow> Inl e
                | Inr (trailer, self3) \<Rightarrow> Inr (header @ args @ trailer, self3))))"

text \<open>
  The pointer declaration. \<^verbatim>\<open>',:' * (rank - 1)\<close> needs an integer rank and is empty when
  \<^verbatim>\<open>rank - 1\<close> is not positive. The object is not changed.
\<close>

definition emit_declare_pointers :: "MAPL_DataSpec \<Rightarrow> (string \<times> MAPL_DataSpec) result" where
  "emit_declare_pointers self =
     (case getitem (spec_values self) RANK of
        Inl e \<Rightarrow> Inl e
      | Inr (PInt rank) \<Rightarrow>
          (case str_add
                  (newline self @ ''real'' @
                   (if contains (spec_values self) PRECISION
                    then ''(kind='' @ str (get (spec_values self) PRECISION) @ '')''
                    else []) @
                   '', pointer, '' @
                   (''dimension(:'' @ concat (replicate (nat (rank - 1)) '',:'') @ '')'') @
                   '' :: '')
                  (internal_name self) of
             Inl e \<Rightarrow> Inl e
           | Inr text \<Rightarrow> Inr (text, self))
      | Inr _ \<Rightarrow> Inl TypeError)"

definition emit_pointer_alloc :: "MAPL_DataSpec \<Rightarrow> string list result" where
  "emit_pointer_alloc self =
     (if truthy (get (spec_values self) ALLOC) then
        (case get (spec_values self) ALLOC of
           PStr v \<Rightarrow>
             (if length (lower (strip v)) > 0 then
                (case get_fortran_logical (PStr (lower (strip v))) of
                   Inl e \<Rightarrow> Inl e
                 | Inr logical \<Rightarrow> Inr [name_key ALLOC @ ''='' @ logical])
              else Inr [])
         | _ \<Rightarrow> Inl AttributeError)
      else Inr [])"

text \<open>\<^verbatim>\<open>sep.join(items)\<close> over values: a \<^verbatim>\<open>TypeError\<close> unless every item is a string.\<close>

fun strings_of :: "pyval list \<Rightarrow> string list result" where
  "strings_of [] = Inr []"
| "strings_of (PStr s # rest) =
     (case strings_of rest of Inl e \<Rightarrow> Inl e | Inr ss \<Rightarrow> Inr (s # ss))"
| "strings_of (_ # rest) = Inl TypeError"

definition join_values :: "string \<Rightarrow> pyval list \<Rightarrow> string result" where
  "join_values sep items =
     (case strings_of items of Inl e \<Rightarrow> Inl e | Inr ss \<Rightarrow> Inr (join sep ss))"

text \<open>
  The pointer retrieval: the list is built left to right (header, allocation argument,
  trailer) and then joined.
\<close>

definition emit_get_pointers :: "MAPL_DataSpec \<Rightarrow> (string \<times> MAPL_DataSpec) result" where
  "emit_get_pointers self =
     (case emit_header self of
        Inl e \<Rightarrow> Inl e
      | Inr (header, self1) \<Rightarrow>
          (case emit_pointer_alloc self1 of
             Inl e \<Rightarrow> Inl e
           | Inr alloc \<Rightarrow>
               (case emit_trailer True self1 of
                  Inl e \<Rightarrow> Inl e
                | Inr (trailer, self2) \<Rightarrow>
                    (case join_values DELIMITER
                            ([PStr (header @ ''call MAPL_GetPointer('' @ category self1),
                              internal_name self1, mangled_name self1] @
                             map PStr alloc @ [PStr (TERMINATOR @ trailer)]) of
                       Inl e \<Rightarrow> Inl e
                     | Inr text \<Rightarrow> Inr (text, self2)))))"



section \<open>Definitions used to state the properties\<close>


text \<open>
  What the loop over the columns maintains: the local variables \<^verbatim>\<open>dims\<close> and
  \<^verbatim>\<open>ungridded\<close> are the values stored under \<^verbatim>\<open>Option.DIMS\<close> and \<^verbatim>\<open>Option.UNGRIDDED\<close>,
  and they have the shapes their emit functions produce.
\<close>

definition tracks :: "pyval \<times> pyval \<times> option_values \<Rightarrow> bool" where
  "tracks st =
     (case st of (dims, ungridded, values) \<Rightarrow>
        dims = get values DIMS \<and> ungridded = get values UNGRIDDED \<and>
        (dims = PNone \<or> dims = PStr ''MAPL_DimsVertOnly'' \<or>
         dims = PStr ''MAPL_DimsHorzOnly'' \<or> dims = PStr ''MAPL_DimsHorzVert'') \<and>
        (ungridded = PNone \<or> (\<exists>body. body \<noteq> [] \<and> ungridded = PStr (''['' @ body @ '']''))))"


text \<open>
  Vocabulary for the rule engine. The result of one condition on given values is what
  \<^verbatim>\<open>Rule.predicate\<close> of the source returns for it; its message is the text
  \<^verbatim>\<open>rule_check\<close> appends for a true result.
\<close>

fun holds :: "option_values \<Rightarrow> condition \<Rightarrow> bool" where
  "holds values (Condition option rel expected message) =
     (predicate option rel expected values = Inr True)"

fun condition_message :: "condition \<Rightarrow> string" where
  "condition_message (Condition option rel expected message) = name_key option @ '' '' @ message"

text \<open>
  The values supply every attribute a condition names; the condition uses one of the two
  relations the program defines.
\<close>

fun names_supplied :: "option_values \<Rightarrow> condition \<Rightarrow> bool" where
  "names_supplied values (Condition option rel expected message) =
     (contains values option \<and>
      (case expected of Attr k \<Rightarrow> contains values k | Lit v \<Rightarrow> True))"

fun common_relation :: "condition \<Rightarrow> bool" where
  "common_relation (Condition option rel expected message) =
     (rel = equals \<or> rel = does_not_equal)"

text \<open>
  The conditions that are evaluated, in order: all of them, or, when the loop breaks on a
  true result, those up to and including the first true one. The aggregate and the
  separator are those of the two joiner kinds of the specification.
\<close>

fun evaluated :: "bool \<Rightarrow> option_values \<Rightarrow> condition list \<Rightarrow> condition list" where
  "evaluated brk values [] = []"
| "evaluated brk values (c # cs) =
     (if brk \<and> holds values c then [c] else c # evaluated brk values cs)"

definition aggregate :: "joiner \<Rightarrow> option_values \<Rightarrow> condition list \<Rightarrow> bool" where
  "aggregate j values evs =
     (if j = Joiner_all then (\<forall>c \<in> set evs. holds values c)
      else (\<exists>c \<in> set evs. holds values c))"

definition separator :: "joiner \<Rightarrow> string" where
  "separator j = (if j = Joiner_all then '' and '' else '' or '')"

text \<open>The conditions of the first built-in rule, and values that violate it.\<close>

definition rule1_conditions :: "condition list" where
  "rule1_conditions =
     [Condition DIMS equals (Lit (PStr ''MAPL_DimsHorzVert'')) ''is equal to MAPL_DimsHorzVert'',
      Condition VLOCATION equals (Lit (PStr ''MAPL_VlocationNone''))
        ''is equal to MAPL_VlocationNone'']"

definition values_hv_none :: option_values where
  "values_hv_none = [(DIMS, PStr ''MAPL_DimsHorzVert''), (VLOCATION, PStr ''MAPL_VlocationNone'')]"

definition row_xy_no_vloc :: spec where
  "row_xy_no_vloc = [(''NAME'', ''T''), (''LONG_NAME'', ''temp''), (''UNITS'', ''K''),
                     (''DIMS'', ''xy'')]"

definition row_xyz_center :: spec where
  "row_xyz_center = [(''NAME'', ''T''), (''LONG_NAME'', ''temp''), (''UNITS'', ''K''),
                     (''DIMS'', ''xyz''), (''VLOC'', ''C'')]"

definition values_xy_no_vloc :: option_values where
  "values_xy_no_vloc =
     [(SHORT_NAME, PStr ([CHR 0x27] @ ''T'' @ [CHR 0x27])),
      (MANGLED_NAME, PStr ([CHR 0x27] @ ''T'' @ [CHR 0x27])), (INTERNAL_NAME, PStr ''T''),
      (LONG_NAME, PStr ([CHR 0x27] @ ''temp'' @ [CHR 0x27])),
      (UNITS, PStr ([CHR 0x27] @ ''K'' @ [CHR 0x27])), (DIMS, PStr ''MAPL_DimsHorzOnly'')]"

definition values_xyz_center :: option_values where
  "values_xyz_center =
     [(SHORT_NAME, PStr ([CHR 0x27] @ ''T'' @ [CHR 0x27])),
      (MANGLED_NAME, PStr ([CHR 0x27] @ ''T'' @ [CHR 0x27])), (INTERNAL_NAME, PStr ''T''),
      (LONG_NAME, PStr ([CHR 0x27] @ ''temp'' @ [CHR 0x27])),
      (UNITS, PStr ([CHR 0x27] @ ''K'' @ [CHR 0x27])), (DIMS, PStr ''MAPL_DimsHorzVert''),
      (VLOCATION, PStr ''MAPL_VlocationCenter'')]"

text \<open>
  The members that the columns of a row resolve to, and the keys of a dictionary.
\<close>

definition resolved :: "spec \<Rightarrow> Option set" where
  "resolved spec = set (List.map_filter (\<lambda>(column, v). Option_getitem (upper column)) spec)"

definition all_resolve :: "spec \<Rightarrow> bool" where
  "all_resolve spec = list_all (\<lambda>(column, v). Option_getitem (upper column) \<noteq> None) spec"

definition keys :: "option_values \<Rightarrow> Option set" where
  "keys values = fst ` set values"

definition row_no_units :: spec where
  "row_no_units = [(''NAME'', ''T''), (''LONG_NAME'', ''temp''), (''DIMS'', ''xyz'')]"

definition row_no_name_units :: spec where
  "row_no_name_units = [(''LONG_NAME'', ''temp''), (''DIMS'', ''xyz''), (''VLOC'', ''C'')]"

definition row_units_only_missing :: spec where
  "row_units_only_missing = [(''name'', ''T''), (''Long Name'', ''temp''), (''dims'', ''q'')]"

definition row_empty_units :: spec where
  "row_empty_units = [(''NAME'', ''T''), (''LONG_NAME'', ''temp''), (''UNITS'', []),
                      (''DIMS'', ''xyz''), (''VLOC'', ''C'')]"

definition values_empty_units :: option_values where
  "values_empty_units =
     [(SHORT_NAME, PStr ([CHR 0x27] @ ''T'' @ [CHR 0x27])),
      (MANGLED_NAME, PStr ([CHR 0x27] @ ''T'' @ [CHR 0x27])), (INTERNAL_NAME, PStr ''T''),
      (LONG_NAME, PStr ([CHR 0x27] @ ''temp'' @ [CHR 0x27])),
      (UNITS, PNone), (DIMS, PStr ''MAPL_DimsHorzVert''),
      (VLOCATION, PStr ''MAPL_VlocationCenter''), (RANK, PInt 3)]"

text \<open>
  The cell of a row that decides the value of an option: the cell of the last column whose
  name resolves to one of the given members (a later column overwrites an earlier one).
\<close>

fun last_cell :: "Option list \<Rightarrow> spec \<Rightarrow> string option" where
  "last_cell opts [] = None"
| "last_cell opts ((column, v) # rest) =
     (case last_cell opts rest of
        Some v' \<Rightarrow> Some v'
      | None \<Rightarrow>
          (case Option_getitem (upper column) of
             Some option \<Rightarrow> if option \<in> set opts then Some v else None
           | None \<Rightarrow> None))"

definition row_empty_long_name :: spec where
  "row_empty_long_name = [(''NAME'', ''T''), (''LONG_NAME'', []), (''UNITS'', ''K''),
                          (''DIMS'', ''xyz''), (''VLOC'', ''C'')]"

definition values_empty_long_name :: option_values where
  "values_empty_long_name =
     [(SHORT_NAME, PStr ([CHR 0x27] @ ''T'' @ [CHR 0x27])),
      (MANGLED_NAME, PStr ([CHR 0x27] @ ''T'' @ [CHR 0x27])), (INTERNAL_NAME, PStr ''T''),
      (LONG_NAME, PNone), (UNITS, PStr ([CHR 0x27] @ ''K'' @ [CHR 0x27])),
      (DIMS, PStr ''MAPL_DimsHorzVert''),
      (VLOCATION, PStr ''MAPL_VlocationCenter''), (RANK, PInt 3)]"

text \<open>
  Two rows that differ only in how columns are spelled: cell by cell the values are equal
  and the two column names are the same or resolve to the same member of \<^verbatim>\<open>Option\<close>.
\<close>

definition respelled :: "spec \<Rightarrow> spec \<Rightarrow> bool" where
  "respelled spec1 spec2 =
     list_all2 (\<lambda>(column1, v1) (column2, v2).
        v1 = v2 \<and>
        (column1 = column2 \<or>
         (Option_getitem (upper column1) \<noteq> None \<and>
          Option_getitem (upper column1) = Option_getitem (upper column2)))) spec1 spec2"

definition row_long_spelling :: spec where
  "row_long_spelling = [(''SHORT_NAME'', ''T*''), (''LONG_NAME'', ''temp''), (''UNITS'', ''K''),
     (''DIMS'', ''z''), (''VLOCATION'', ''C''), (''UNGRIDDED'', ''a,b''), (''CONDITION'', ''flag'')]"

definition row_short_spelling :: spec where
  "row_short_spelling = [(''name'', ''T*''), (''Long Name'', ''temp''), (''units'', ''K''),
     (''dims'', ''z''), (''vloc'', ''C''), (''Ungrid'', ''a,b''), (''cond'', ''flag'')]"

text \<open>A string made of white space only, as \<^verbatim>\<open>str.strip()\<close> removes it at both ends.\<close>

definition blank :: "string \<Rightarrow> bool" where
  "blank s = list_all (\<lambda>c. c \<in> set whitespace) s"

text \<open>
  A \<^verbatim>\<open>MAPL_DataSpec\<close> with a condition, as \<^verbatim>\<open>MAPL_DataSpec('import', values)\<close> builds it
  from a digested record.
\<close>

definition dataspec_flag :: MAPL_DataSpec where
  "dataspec_flag =
     \<lparr>category = ''import'', indent = 3,
      mangled_name = PStr ([CHR 0x27] @ ''T'' @ [CHR 0x27]),
      internal_name = PStr ''T'', condition = PStr ''flag'',
      spec_values =
        [(SHORT_NAME, PStr ([CHR 0x27] @ ''T'' @ [CHR 0x27])),
         (MANGLED_NAME, PStr ([CHR 0x27] @ ''T'' @ [CHR 0x27])), (INTERNAL_NAME, PStr ''T''),
         (LONG_NAME, PStr ([CHR 0x27] @ ''temp'' @ [CHR 0x27])),
         (UNITS, PStr ([CHR 0x27] @ ''K'' @ [CHR 0x27])), (DIMS, PStr ''MAPL_DimsVertOnly''),
         (VLOCATION, PStr ''MAPL_VlocationCenter''), (UNGRIDDED, PStr ''[a,b]''),
         (PRECISION, PStr ''R8''), (ALLOC, PStr ''Yes''),
         (CONDITION, PStr ''flag''), (RANK, PInt 3)]\<rparr>"

text \<open>A value that is a string or \<^verbatim>\<open>None\<close>, as every emit function returns.\<close>

fun str_or_none :: "pyval \<Rightarrow> bool" where
  "str_or_none (PInt i) = False"
| "str_or_none v = True"

text \<open>
  The text of a fragment, and a dimension list of \<open>n\<close> dimensions as the specification
  describes it: \<open>n\<close> colons separated by commas.
\<close>

definition text_of :: "(string \<times> MAPL_DataSpec) result \<Rightarrow> string result" where
  "text_of r = (case r of Inl e \<Rightarrow> Inl e | Inr (text, self) \<Rightarrow> Inr text)"

definition dimension_list :: "nat \<Rightarrow> string" where
  "dimension_list n = join '','' (replicate n '':'')"

definition row_empty_name :: spec where
  "row_empty_name = [(''NAME'', []), (''LONG_NAME'', ''temp''), (''UNITS'', ''K''),
                     (''DIMS'', ''xyz''), (''VLOC'', ''C'')]"

definition values_empty_name :: option_values where
  "values_empty_name =
     [(SHORT_NAME, PNone), (MANGLED_NAME, PNone), (INTERNAL_NAME, PNone),
      (LONG_NAME, PStr ([CHR 0x27] @ ''temp'' @ [CHR 0x27])),
      (UNITS, PStr ([CHR 0x27] @ ''K'' @ [CHR 0x27])), (DIMS, PStr ''MAPL_DimsHorzVert''),
      (VLOCATION, PStr ''MAPL_VlocationCenter''), (RANK, PInt 3)]"

definition dataspec_empty_name :: MAPL_DataSpec where
  "dataspec_empty_name =
     \<lparr>category = ''import'', indent = 3, mangled_name = PNone, internal_name = PNone,
      condition = PNone, spec_values = values_empty_name\<rparr>"

definition row_precision :: spec where
  "row_precision = [(''NAME'', ''T*''), (''LONG_NAME'', ''temp''), (''UNITS'', ''K''),
     (''DIMS'', ''z''), (''VLOC'', ''C''), (''UNGRID'', ''a,b''), (''PREC'', ''R8''),
     (''COND'', ''flag'')]"

definition values_precision :: option_values where
  "values_precision =
     [(SHORT_NAME, PStr ([CHR 0x27] @ ''T'' @ [CHR 0x27] @ ''//trim(comp_name)//'' @
                         [CHR 0x27, CHR 0x27])),
      (MANGLED_NAME, PStr ([CHR 0x27] @ ''T'' @ [CHR 0x27] @ ''//trim(comp_name)//'' @
                           [CHR 0x27, CHR 0x27])),
      (INTERNAL_NAME, PStr ''T''),
      (LONG_NAME, PStr ([CHR 0x27] @ ''temp'' @ [CHR 0x27])),
      (UNITS, PStr ([CHR 0x27] @ ''K'' @ [CHR 0x27])), (DIMS, PStr ''MAPL_DimsVertOnly''),
      (VLOCATION, PStr ''MAPL_VlocationCenter''), (UNGRIDDED, PStr ''[a,b]''),
      (PRECISION, PStr ''R8''), (CONDITION, PStr ''flag''), (RANK, PInt 3)]"

section \<open>Digestion of a whole input\<close>

text \<open>
  \<^verbatim>\<open>digest\<close> succeeds exactly when every row of every category is digested, and then it
  returns the records of the rows, in order; so what is proved below about one row holds
  for every record that \<^verbatim>\<open>digest\<close> returns.
\<close>

lemma digest_category_Inr:
  "digest_category specs = Inr records \<longleftrightarrow>
   list_all2 (\<lambda>spec rec. digest_spec spec = Inr rec) specs records"
proof (induction specs arbitrary: records)
  case Nil
  show ?case by auto
next
  case (Cons spec specs)
  show ?case
  proof (cases "digest_spec spec")
    case (Inl e)
    then show ?thesis by (auto simp: list_all2_Cons1)
  next
    case (Inr rec)
    show ?thesis
    proof (cases "digest_category specs")
      case (Inl e)
      with Cons.IH show ?thesis
        by (auto simp: Inr list_all2_Cons1)
    next
      case r: (Inr rest)
      with Cons.IH [of rest] have all: "list_all2 (\<lambda>spec rec. digest_spec spec = Inr rec) specs rest"
        by simp
      show ?thesis
        using Cons.IH all by (auto simp: Inr r list_all2_Cons1)
    qed
  qed
qed

lemma digest_Inr:
  "digest input = Inr out \<longleftrightarrow>
   list_all2 (\<lambda>(category, specs) (category', records).
      category' = category \<and> digest_category specs = Inr records) input out"
proof (induction input arbitrary: out)
  case Nil
  show ?case by auto
next
  case (Cons cs input)
  obtain category specs where cs: "cs = (category, specs)" by (cases cs)
  show ?case
  proof (cases "digest_category specs")
    case (Inl e)
    then show ?thesis by (auto simp: cs list_all2_Cons1)
  next
    case (Inr records)
    show ?thesis
    proof (cases "digest input")
      case (Inl e)
      with Cons.IH show ?thesis
        by (auto simp: cs Inr list_all2_Cons1)
    next
      case r: (Inr rest)
      show ?thesis
        using Cons.IH by (auto simp: cs Inr r list_all2_Cons1)
    qed
  qed
qed

section \<open>Rank\<close>

lemma length_split: "length (split sep s) = Suc (count_list s sep)"
  by (induction s) (auto split: list.splits)

lemma count_list_dropWhile:
  "\<not> P sep \<Longrightarrow> count_list (dropWhile P s) sep = count_list s sep"
  by (induction s) auto

lemma count_list_strip_chars:
  "sep \<notin> set chars \<Longrightarrow> count_list (strip_chars chars s) sep = count_list s sep"
  by (simp add: strip_chars_def count_list_dropWhile)

lemma extra_rank_bracketed:
  "length (split (CHR '','') (strip_chars '']['' (''['' @ body @ '']''))) =
   length (split (CHR '','') body)"
  by (simp add: length_split count_list_strip_chars)

lemma DIMS_EMIT_cases:
  "DIMS_EMIT v = PNone \<or> DIMS_EMIT v = PStr ''MAPL_DimsVertOnly'' \<or>
   DIMS_EMIT v = PStr ''MAPL_DimsHorzOnly'' \<or> DIMS_EMIT v = PStr ''MAPL_DimsHorzVert''"
  by (simp add: DIMS_EMIT_def make_entry_emit_def DIMS_OPTIONS_def)


lemma get_update: "get (AList.update k v values) k' = (if k' = k then v else get values k')"
  by (simp add: get_def update_conv')

lemma array_emit_cases:
  "array_emit v = PNone \<or> (\<exists>body. body \<noteq> [] \<and> array_emit v = PStr (''['' @ body @ '']''))"
  by (simp add: array_emit_def)

lemma column_step_tracks: "tracks st \<Longrightarrow> tracks (column_step option v st)"
  using DIMS_EMIT_cases [of v] array_emit_cases [of v]
  by (cases st) (auto simp: tracks_def column_step_def get_update)

lemma process_columns_tracks:
  "process_columns spec st = Inr st' \<Longrightarrow> tracks st \<Longrightarrow> tracks st'"
proof (induction spec arbitrary: st)
  case Nil
  then show ?case by simp
next
  case (Cons cv spec)
  obtain column v where cv: "cv = (column, v)" by (cases cv)
  from Cons.prems(1) obtain option where
    "Option_getitem (upper column) = Some option"
    "process_columns spec (column_step option v st) = Inr st'"
    by (auto simp: cv split: option.splits)
  with Cons.IH Cons.prems(2) show ?case
    by (blast intro: column_step_tracks)
qed

lemma tracks_init: "tracks (PNone, PNone, [])"
  by (simp add: tracks_def get_def)

lemma digest_spec_InrD:
  assumes "digest_spec spec = Inr values"
  shows "\<exists>dims ungridded ov rank.
           process_columns spec (PNone, PNone, []) = Inr (dims, ungridded, ov) \<and>
           check_mandatory get_mandatory_options ov = Inr () \<and>
           compute_rank dims ungridded = Inr rank \<and>
           check_option_values (AList.update RANK (PInt rank) ov) = Inr () \<and>
           values = AList.update RANK (PInt rank) ov"
  using assms by (auto simp: digest_spec_def split: sum.splits prod.splits)


lemma compute_rank_PNone_dims: "compute_rank PNone u \<noteq> Inr r"
  by (simp add: compute_rank_def split: sum.splits)




section \<open>The rule engine\<close>

lemma predicate_returns:
  assumes "names_supplied values c" "common_relation c"
  shows "\<exists>b. (case c of Condition option rel expected message \<Rightarrow>
               predicate option rel expected values) = Inr b"
proof (cases c)
  case (Condition option rel expected message)
  from assms(1) obtain l where l: "getitem values option = Inr l"
    by (auto simp: Condition contains_def getitem_def)
  from assms(1) obtain r where r: "operand_value expected values = Inr r"
    by (cases expected) (auto simp: Condition contains_def getitem_def)
  from assms(2) l r show ?thesis
    by (auto simp: Condition predicate_def equals_def does_not_equal_def relation_def)
qed

lemma rule_loop_evaluated:
  assumes "\<forall>c \<in> set cs. names_supplied values c \<and> common_relation c"
  shows "rule_loop brk cs values ms rs =
           Inr (ms @ map condition_message (filter (holds values) (evaluated brk values cs)),
                rs @ map (holds values) (evaluated brk values cs))"
  using assms
proof (induction cs arbitrary: ms rs)
  case Nil
  then show ?case by simp
next
  case (Cons c cs)
  obtain option rel expected message where c: "c = Condition option rel expected message"
    by (cases c)
  from Cons.prems predicate_returns [of "values" c] obtain b where
    b: "predicate option rel expected values = Inr b"
    by (auto simp: c)
  have IH: "\<And>ms rs. rule_loop brk cs values ms rs =
           Inr (ms @ map condition_message (filter (holds values) (evaluated brk values cs)),
                rs @ map (holds values) (evaluated brk values cs))"
    using Cons.IH Cons.prems by simp
  consider (stop) "b" "brk" | (go_on) "b" "\<not> brk" | (no) "\<not> b" by blast
  then show ?case
  proof cases
    case stop
    then show ?thesis by (simp add: c b)
  next
    case go_on
    then show ?thesis
      using IH [of "ms @ [name_key option @ '' '' @ message]" "rs @ [True]"]
      by (simp add: c b)
  next
    case no
    then show ?thesis
      using IH [of ms "rs @ [False]"]
      by (simp add: c b)
  qed
qed

lemma evaluated_all: "evaluated False values cs = cs"
  by (induction cs) auto

lemma evaluated_any:
  "evaluated True values cs =
     takeWhile (\<lambda>c. \<not> holds values c) cs @ take 1 (dropWhile (\<lambda>c. \<not> holds values c) cs)"
  by (induction cs) auto

lemma apply_joiner_aggregate:
  "j \<noteq> Joiner_other \<Longrightarrow>
   apply_joiner j (map (holds values) evs) = aggregate j values evs"
  by (cases j) (auto simp: aggregate_def list_all_iff list_ex_iff)

text \<open>
  C3. For a rule built with the joiner \<^verbatim>\<open>all\<close> or \<^verbatim>\<open>any\<close> over conditions whose
  attributes the values all supply, the loop evaluates the conditions in order (all of them
  for \<^verbatim>\<open>all\<close>; up to and including the first true one for \<^verbatim>\<open>any\<close>) and records their
  results; \<^verbatim>\<open>Rule.check\<close> raises exactly when the aggregate of the evaluated conditions is
  true (every one true for \<^verbatim>\<open>all\<close>, at least one true for \<^verbatim>\<open>any\<close>), with the messages
  \<^verbatim>\<open>name_key + " " + message\<close> of the true conditions joined by \<^verbatim>\<open>" and "\<close> or
  \<^verbatim>\<open>" or "\<close>; otherwise it returns without error.
\<close>

theorem rule_check_violation:
  assumes "j = Joiner_all \<or> j = Joiner_any"
    and "\<forall>c \<in> set conditions. names_supplied values c \<and> common_relation c"
  shows "\<exists>rule. Rule_init conditions j = Inr rule \<and>
           rule_loop (break_on_true rule) (processed_conditions rule) values [] [] =
             Inr (map condition_message
                    (filter (holds values) (evaluated (j = Joiner_any) values conditions)),
                  map (holds values) (evaluated (j = Joiner_any) values conditions)) \<and>
           check rule values =
             (if aggregate j values (evaluated (j = Joiner_any) values conditions)
              then Inl (RuntimeError (join (separator j)
                     (map condition_message
                        (filter (holds values)
                           (evaluated (j = Joiner_any) values conditions)))))
              else Inr ()) \<and>
           evaluated (j = Joiner_any) values conditions =
             (if j = Joiner_any
              then takeWhile (\<lambda>c. \<not> holds values c) conditions @
                   take 1 (dropWhile (\<lambda>c. \<not> holds values c) conditions)
              else conditions)"
proof -
  let ?evs = "evaluated (j = Joiner_any) values conditions"
  let ?rule = "\<lparr>processed_conditions = conditions, joiner = j,
                rule_joiner = separator j, break_on_true = (j = Joiner_any)\<rparr>"
  have init: "Rule_init conditions j = Inr ?rule"
    using assms(1) by (auto simp: Rule_init_def separator_def)
  have loop: "rule_loop (j = Joiner_any) conditions values [] [] =
      Inr (map condition_message (filter (holds values) ?evs), map (holds values) ?evs)"
    using rule_loop_evaluated [OF assms(2), of "j = Joiner_any" "[]" "[]"] by simp
  have agg: "apply_joiner j (map (holds values) ?evs) = aggregate j values ?evs"
    using assms(1) by (intro apply_joiner_aggregate) auto
  have chk: "check ?rule values =
      (if aggregate j values ?evs
       then Inl (RuntimeError (join (separator j)
              (map condition_message (filter (holds values) ?evs))))
       else Inr ())"
    by (simp add: check_def rule_check_def loop agg)
  have ev: "?evs = (if j = Joiner_any
              then takeWhile (\<lambda>c. \<not> holds values c) conditions @
                   take 1 (dropWhile (\<lambda>c. \<not> holds values c) conditions)
              else conditions)"
    by (simp add: evaluated_all evaluated_any)
  from init loop chk ev show ?thesis
    by (intro exI [of _ ?rule]) simp
qed

lemma holds_rule1:
  "holds values_hv_none
     (Condition DIMS equals (Lit (PStr ''MAPL_DimsHorzVert'')) ''is equal to MAPL_DimsHorzVert'')"
  "holds values_hv_none
     (Condition VLOCATION equals (Lit (PStr ''MAPL_VlocationNone''))
        ''is equal to MAPL_VlocationNone'')"
  by (simp_all add: values_hv_none_def predicate_def equals_def relation_def getitem_def
        operator_eq_def)

theorem rule_check_violation_witness:
  "(\<exists>rule. Rule_init rule1_conditions Joiner_all = Inr rule \<and>
      check rule values_hv_none =
        Inl (RuntimeError
          ''dims is equal to MAPL_DimsHorzVert and vlocation is equal to MAPL_VlocationNone'')) \<and>
   (\<exists>rule. Rule_init rule1_conditions Joiner_any = Inr rule \<and>
      check rule values_hv_none = Inl (RuntimeError ''dims is equal to MAPL_DimsHorzVert''))"
proof -
  have sup: "\<forall>c \<in> set rule1_conditions. names_supplied values_hv_none c \<and> common_relation c"
    by (simp add: rule1_conditions_def values_hv_none_def contains_def)
  have a: "Joiner_all = Joiner_all \<or> Joiner_all = Joiner_any" by simp
  have b: "Joiner_any = Joiner_all \<or> Joiner_any = Joiner_any" by simp
  show ?thesis
    using rule_check_violation [OF a sup] rule_check_violation [OF b sup] holds_rule1
    by (auto simp: rule1_conditions_def aggregate_def separator_def)
qed

section \<open>The two built-in rules\<close>

lemma check_option_values_eq:
  "check_option_values vs =
     (case map_of vs DIMS of
        None \<Rightarrow> Inl KeyError
      | Some d \<Rightarrow>
          (case map_of vs VLOCATION of
             None \<Rightarrow> Inl KeyError
           | Some v \<Rightarrow>
               (if d = PStr ''MAPL_DimsHorzVert'' \<and> v = PStr ''MAPL_VlocationNone''
                then Inl (RuntimeError
                  ''dims is equal to MAPL_DimsHorzVert and vlocation is equal to MAPL_VlocationNone'')
                else if d = PStr ''MAPL_DimsHorzOnly'' \<and> v \<noteq> PStr ''MAPL_VlocationNone''
                then Inl (RuntimeError
                  ''dims is equal to MAPL_DimsHorzOnly and vlocation is not equal to MAPL_VlocationNone'')
                else Inr ())))"
  by (simp add: check_option_values_def Rule_init_def check_def rule_check_def predicate_def
        equals_def does_not_equal_def relation_def getitem_def operator_eq_def operator_ne_def
        split: option.splits)

lemma compute_rank_tracks:
  assumes "tracks (dims, ungridded, values)"
  shows "(dims = PNone \<and> compute_rank dims ungridded = Inl KeyError) \<or>
         (dims \<noteq> PNone \<and> (\<exists>rank. compute_rank dims ungridded = Inr rank))"
  using assms
  by (auto simp: tracks_def compute_rank_def RANKS_def DIMS_OPTIONS_def)

lemma check_mandatory_contains:
  "check_mandatory opts values = Inr () \<Longrightarrow> option \<in> set opts \<Longrightarrow> contains values option"
  by (induction opts) (auto split: if_splits)

lemma mandatory_options_eq: "get_mandatory_options = [SHORT_NAME, LONG_NAME, UNITS, DIMS]"
  by (simp add: get_mandatory_options_def Option_members_def)

lemma digest_spec_after_mandatory:
  assumes pc: "process_columns spec (PNone, PNone, []) = Inr (dims, ungridded, values)"
    and cm: "check_mandatory get_mandatory_options values = Inr ()"
  shows "digest_spec spec =
     (case map_of values VLOCATION of
        None \<Rightarrow> Inl KeyError
      | Some v \<Rightarrow>
          (if dims = PNone then Inl KeyError
           else if dims = PStr ''MAPL_DimsHorzVert'' \<and> v = PStr ''MAPL_VlocationNone''
           then Inl (RuntimeError
             ''dims is equal to MAPL_DimsHorzVert and vlocation is equal to MAPL_VlocationNone'')
           else if dims = PStr ''MAPL_DimsHorzOnly'' \<and> v \<noteq> PStr ''MAPL_VlocationNone''
           then Inl (RuntimeError
             ''dims is equal to MAPL_DimsHorzOnly and vlocation is not equal to MAPL_VlocationNone'')
           else (case compute_rank dims ungridded of
                   Inl e \<Rightarrow> Inl e
                 | Inr rank \<Rightarrow> Inr (AList.update RANK (PInt rank) values))))"
    and "map_of values DIMS = Some dims"
proof -
  have tr: "tracks (dims, ungridded, values)"
    using process_columns_tracks [OF pc tracks_init] .
  have "contains values DIMS"
    using check_mandatory_contains [OF cm] by (simp add: mandatory_options_eq)
  with tr show md: "map_of values DIMS = Some dims"
    by (auto simp: tracks_def contains_def get_def)
  have upd: "map_of (AList.update RANK (PInt rank) values) DIMS = Some dims"
       "map_of (AList.update RANK (PInt rank) values) VLOCATION = map_of values VLOCATION"
    for rank
    by (simp_all add: update_conv' md)
  show "digest_spec spec =
     (case map_of values VLOCATION of
        None \<Rightarrow> Inl KeyError
      | Some v \<Rightarrow>
          (if dims = PNone then Inl KeyError
           else if dims = PStr ''MAPL_DimsHorzVert'' \<and> v = PStr ''MAPL_VlocationNone''
           then Inl (RuntimeError
             ''dims is equal to MAPL_DimsHorzVert and vlocation is equal to MAPL_VlocationNone'')
           else if dims = PStr ''MAPL_DimsHorzOnly'' \<and> v \<noteq> PStr ''MAPL_VlocationNone''
           then Inl (RuntimeError
             ''dims is equal to MAPL_DimsHorzOnly and vlocation is not equal to MAPL_VlocationNone'')
           else (case compute_rank dims ungridded of
                   Inl e \<Rightarrow> Inl e
                 | Inr rank \<Rightarrow> Inr (AList.update RANK (PInt rank) values))))"
    using compute_rank_tracks [OF tr]
    by (auto simp: digest_spec_def pc cm check_option_values_eq upd split: option.splits)
qed

text \<open>
  C2, amended. For every record that passes the mandatory-presence check, digestion fails
  with a rule violation (the \<^verbatim>\<open>RuntimeError\<close> of \<^verbatim>\<open>rule_check\<close>) if and only if either
  dims is \<^verbatim>\<open>MAPL_DimsHorzVert\<close> and vlocation is \<^verbatim>\<open>MAPL_VlocationNone\<close>, or dims is
  \<^verbatim>\<open>MAPL_DimsHorzOnly\<close> and the record has a vlocation whose value is not
  \<^verbatim>\<open>MAPL_VlocationNone\<close>. In the first case the message is the two condition phrases joined
  by \<^verbatim>\<open>" and "\<close>. A record with dims \<^verbatim>\<open>MAPL_DimsHorzVert\<close> and vlocation
  \<^verbatim>\<open>MAPL_VlocationCenter\<close> digests successfully. A record without a vlocation fails with
  a \<^verbatim>\<open>KeyError\<close>, which is not a rule violation.
\<close>

theorem rule_violation_iff:
  assumes "process_columns spec (PNone, PNone, []) = Inr (dims, ungridded, values)"
    and "check_mandatory get_mandatory_options values = Inr ()"
  shows "((\<exists>msg. digest_spec spec = Inl (RuntimeError msg)) \<longleftrightarrow>
            (getitem values DIMS = Inr (PStr ''MAPL_DimsHorzVert'') \<and>
             getitem values VLOCATION = Inr (PStr ''MAPL_VlocationNone'')) \<or>
            (getitem values DIMS = Inr (PStr ''MAPL_DimsHorzOnly'') \<and>
             (\<exists>v. getitem values VLOCATION = Inr v \<and> v \<noteq> PStr ''MAPL_VlocationNone''))) \<and>
         (getitem values DIMS = Inr (PStr ''MAPL_DimsHorzVert'') \<and>
          getitem values VLOCATION = Inr (PStr ''MAPL_VlocationNone'') \<longrightarrow>
            digest_spec spec = Inl (RuntimeError
              (''dims is equal to MAPL_DimsHorzVert'' @ '' and '' @
               ''vlocation is equal to MAPL_VlocationNone''))) \<and>
         (getitem values DIMS = Inr (PStr ''MAPL_DimsHorzVert'') \<and>
          getitem values VLOCATION = Inr (PStr ''MAPL_VlocationCenter'') \<longrightarrow>
            (\<exists>rec. digest_spec spec = Inr rec)) \<and>
         (\<not> contains values VLOCATION \<longrightarrow> digest_spec spec = Inl KeyError)"
proof -
  note d = digest_spec_after_mandatory [OF assms]
  have tr: "tracks (dims, ungridded, values)"
    using process_columns_tracks [OF assms(1) tracks_init] .
  show ?thesis
    using compute_rank_tracks [OF tr]
    by (auto simp: d getitem_def contains_def split: option.splits)
qed

lemma process_row_xyz_center:
  "process_columns row_xyz_center (PNone, PNone, []) =
     Inr (PStr ''MAPL_DimsHorzVert'', PNone, values_xyz_center)"
  by code_simp

theorem rule_violation_iff_witness:
  "getitem values_xyz_center DIMS = Inr (PStr ''MAPL_DimsHorzVert'') \<and>
   getitem values_xyz_center VLOCATION = Inr (PStr ''MAPL_VlocationCenter'') \<and>
   (\<exists>rec. digest_spec row_xyz_center = Inr rec)"
proof -
  have cm: "check_mandatory get_mandatory_options values_xyz_center = Inr ()"
    by (simp add: mandatory_options_eq contains_def values_xyz_center_def)
  have g: "getitem values_xyz_center DIMS = Inr (PStr ''MAPL_DimsHorzVert'')"
    "getitem values_xyz_center VLOCATION = Inr (PStr ''MAPL_VlocationCenter'')"
    by (simp_all add: getitem_def values_xyz_center_def)
  from rule_violation_iff [OF process_row_xyz_center cm] g show ?thesis
    by blast
qed

lemma process_row_xy_no_vloc:
  "process_columns row_xy_no_vloc (PNone, PNone, []) =
     Inr (PStr ''MAPL_DimsHorzOnly'', PNone, values_xy_no_vloc)"
  by code_simp

lemma digest_row_xy_no_vloc: "digest_spec row_xy_no_vloc = Inl KeyError"
  by code_simp

text \<open>
  As the claim words it, a record with dims horizontal-only whose vlocation differs from
  \<^verbatim>\<open>MAPL_VlocationNone\<close> fails with a rule violation. The row below passes the mandatory
  check, has dims horizontal-only and no vlocation at all (so its vlocation is not that
  token), and digestion fails with a \<^verbatim>\<open>KeyError\<close>, not with a rule violation.
\<close>

theorem rule_violation_iff_counterexample:
  "process_columns row_xy_no_vloc (PNone, PNone, []) =
     Inr (PStr ''MAPL_DimsHorzOnly'', PNone, values_xy_no_vloc) \<and>
   check_mandatory get_mandatory_options values_xy_no_vloc = Inr () \<and>
   get values_xy_no_vloc DIMS = PStr ''MAPL_DimsHorzOnly'' \<and>
   get values_xy_no_vloc VLOCATION \<noteq> PStr ''MAPL_VlocationNone'' \<and>
   digest_spec row_xy_no_vloc = Inl KeyError \<and>
   digest_spec row_xy_no_vloc \<noteq>
     Inl (RuntimeError
       ''dims is equal to MAPL_DimsHorzOnly and vlocation is not equal to MAPL_VlocationNone'')"
  by (simp add: process_row_xy_no_vloc digest_row_xy_no_vloc mandatory_options_eq
        contains_def get_def values_xy_no_vloc_def)

section \<open>Keys of the digested record\<close>

lemma contains_keys: "contains values k \<longleftrightarrow> k \<in> keys values"
  by (simp add: contains_def keys_def map_of_eq_None_iff)

lemma keys_update: "keys (AList.update k v values) = insert k (keys values)"
  by (simp add: keys_def dom_update)

lemma column_step_keys:
  "column_step option v (d, u, values) = (d', u', values') \<Longrightarrow>
   keys values' = keys values \<union> {option} \<union>
     (if option = SHORT_NAME then {MANGLED_NAME, INTERNAL_NAME} else {})"
  by (auto simp: column_step_def keys_update split: if_splits)

lemma resolved_Cons:
  "resolved ((column, v) # rest) =
     (case Option_getitem (upper column) of None \<Rightarrow> resolved rest
      | Some option \<Rightarrow> insert option (resolved rest))"
  by (simp add: resolved_def map_filter_simps split: option.splits)

lemma process_columns_keys:
  "process_columns spec (d, u, values) = Inr (d', u', values') \<Longrightarrow>
   keys values' = keys values \<union> resolved spec \<union>
     (if SHORT_NAME \<in> resolved spec then {MANGLED_NAME, INTERNAL_NAME} else {})"
proof (induction spec arbitrary: d u "values")
  case Nil
  then show ?case by (simp add: resolved_def map_filter_simps)
next
  case (Cons cv spec)
  obtain column v where cv: "cv = (column, v)" by (cases cv)
  from Cons.prems obtain option where
    opt: "Option_getitem (upper column) = Some option" and
    rest: "process_columns spec (column_step option v (d, u, values)) = Inr (d', u', values')"
    by (auto simp: cv split: option.splits)
  obtain d1 u1 values1 where st: "column_step option v (d, u, values) = (d1, u1, values1)"
    by (cases "column_step option v (d, u, values)")
  from Cons.IH [OF rest [unfolded st]] column_step_keys [OF st]
  show ?case
    by (auto simp: cv resolved_Cons opt split: if_splits)
qed

lemma process_columns_total:
  "all_resolve spec \<Longrightarrow> \<exists>st'. process_columns spec st = Inr st'"
proof (induction spec arbitrary: st)
  case Nil
  show ?case by (cases st) simp
next
  case (Cons cv spec)
  obtain column v where cv: "cv = (column, v)" by (cases cv)
  from Cons.prems obtain option where opt: "Option_getitem (upper column) = Some option"
    and rest: "all_resolve spec"
    by (auto simp: all_resolve_def cv)
  from Cons.IH [OF rest, of "column_step option v st"] show ?case
    by (simp add: cv opt)
qed

lemma process_columns_all_resolve:
  "process_columns spec st = Inr st' \<Longrightarrow> all_resolve spec"
proof (induction spec arbitrary: st)
  case Nil
  then show ?case by (simp add: all_resolve_def)
next
  case (Cons cv spec)
  obtain column v where cv: "cv = (column, v)" by (cases cv)
  from Cons.prems obtain option where opt: "Option_getitem (upper column) = Some option"
    and rest: "process_columns spec (column_step option v st) = Inr st'"
    by (auto simp: cv split: option.splits)
  from Cons.IH [OF rest] show ?case
    by (simp add: all_resolve_def cv opt)
qed

lemma process_columns_contains:
  assumes "process_columns spec (PNone, PNone, []) = Inr (dims, ungridded, values)"
    and "option \<noteq> MANGLED_NAME" "option \<noteq> INTERNAL_NAME"
  shows "contains values option \<longleftrightarrow> option \<in> resolved spec"
  using process_columns_keys [OF assms(1)] assms(2,3)
  by (auto simp: contains_keys keys_def split: if_splits)

section \<open>Vlocation\<close>

lemma check_option_values_no_vlocation:
  "\<not> contains vs VLOCATION \<Longrightarrow> contains vs DIMS \<Longrightarrow> check_option_values vs = Inl KeyError"
  by (auto simp: check_option_values_eq contains_def split: option.splits)

text \<open>
  C10, amended. A row none of whose columns is a vlocation alias is never digested
  successfully. When such a row passes the column loop, the mandatory check and the rank
  computation, the rule check raises a \<^verbatim>\<open>KeyError\<close> (which is neither the
  \<^verbatim>\<open>RuntimeError\<close> of a missing option or of a rule violation, nor a \<^verbatim>\<open>ValueError\<close>), and
  that is the result of digestion. The only names that resolve to the vlocation member
  are \<^verbatim>\<open>VLOCATION\<close> and \<^verbatim>\<open>VLOC\<close>, and the schema does not mark it mandatory.
\<close>

theorem vlocation_required:
  assumes "VLOCATION \<notin> resolved spec"
  shows "(\<forall>rec. digest_spec spec \<noteq> Inr rec) \<and>
         (\<forall>dims ungridded values rank.
            process_columns spec (PNone, PNone, []) = Inr (dims, ungridded, values) \<and>
            check_mandatory get_mandatory_options values = Inr () \<and>
            compute_rank dims ungridded = Inr rank \<longrightarrow>
              check_option_values (AList.update RANK (PInt rank) values) = Inl KeyError \<and>
              digest_spec spec = Inl KeyError) \<and>
         (\<forall>n. Option_getitem n = Some VLOCATION \<longleftrightarrow> n = ''VLOCATION'' \<or> n = ''VLOC'') \<and>
         \<not> mandatory VLOCATION"
proof -
  have stage: "check_option_values (AList.update RANK (PInt rank) values) = Inl KeyError"
    if pc: "process_columns spec (PNone, PNone, []) = Inr (dims, ungridded, values)"
      and cm: "check_mandatory get_mandatory_options values = Inr ()"
    for dims ungridded "values" rank
  proof -
    have "\<not> contains values VLOCATION"
      using process_columns_contains [OF pc, of VLOCATION] assms by simp
    then have nv: "\<not> contains (AList.update RANK (PInt rank) values) VLOCATION"
      by (simp add: contains_def update_conv')
    have "contains values DIMS"
      using check_mandatory_contains [OF cm] by (simp add: mandatory_options_eq)
    then have "contains (AList.update RANK (PInt rank) values) DIMS"
      by (simp add: contains_def update_conv')
    with nv show ?thesis by (rule check_option_values_no_vlocation)
  qed
  have never: "digest_spec spec \<noteq> Inr rec" for rec
  proof
    assume "digest_spec spec = Inr rec"
    from digest_spec_InrD [OF this] obtain dims ungridded ov rank where
      "process_columns spec (PNone, PNone, []) = Inr (dims, ungridded, ov)"
      "check_mandatory get_mandatory_options ov = Inr ()"
      "check_option_values (AList.update RANK (PInt rank) ov) = Inr ()"
      by blast
    with stage show False by fastforce
  qed
  have fail: "digest_spec spec = Inl KeyError"
    if "process_columns spec (PNone, PNone, []) = Inr (dims, ungridded, values)"
      and "check_mandatory get_mandatory_options values = Inr ()"
      and "compute_rank dims ungridded = Inr rank"
    for dims ungridded "values" rank
    using that stage [OF that(1,2), of rank] by (simp add: digest_spec_def)
  have names: "Option_getitem n = Some VLOCATION \<longleftrightarrow> n = ''VLOCATION'' \<or> n = ''VLOC''" for n
    by (simp add: Option_getitem_def Option_names_def)
  from never stage fail names show ?thesis by simp
qed

lemma resolved_row_xy_no_vloc: "resolved row_xy_no_vloc = {SHORT_NAME, LONG_NAME, UNITS, DIMS}"
  by code_simp

theorem vlocation_required_witness:
  "VLOCATION \<notin> resolved row_xy_no_vloc \<and>
   check_option_values (AList.update RANK (PInt 2) values_xy_no_vloc) = Inl KeyError \<and>
   digest_spec row_xy_no_vloc = Inl KeyError"
proof -
  have h: "VLOCATION \<notin> resolved row_xy_no_vloc"
    by (simp add: resolved_row_xy_no_vloc)
  have cm: "check_mandatory get_mandatory_options values_xy_no_vloc = Inr ()"
    by (simp add: mandatory_options_eq contains_def values_xy_no_vloc_def)
  have cr: "compute_rank (PStr ''MAPL_DimsHorzOnly'') PNone = Inr 2"
    by (simp add: compute_rank_def RANKS_def DIMS_OPTIONS_def)
  have r: "check_option_values (AList.update RANK (PInt 2) values_xy_no_vloc) = Inl KeyError \<and>
        digest_spec row_xy_no_vloc = Inl KeyError"
    by (rule vlocation_required [OF h, THEN conjunct2, THEN conjunct1, rule_format,
          of "PStr ''MAPL_DimsHorzOnly''" PNone values_xy_no_vloc 2])
       (intro conjI, rule process_row_xy_no_vloc, rule cm, rule cr)
  show ?thesis by (rule conjI [OF h r])
qed

text \<open>
  As the claim words it, every row without a vlocation column fails during rule checking
  with a \<^verbatim>\<open>KeyError\<close>. The row below has no vlocation column and no units column: it
  fails before the rules are reached, with the \<^verbatim>\<open>RuntimeError\<close> of the mandatory check.
\<close>

lemma resolved_row_no_units: "resolved row_no_units = {SHORT_NAME, LONG_NAME, DIMS}"
  by code_simp

lemma digest_row_no_units:
  "digest_spec row_no_units = Inl (RuntimeError ''UNITS is missing from spec.'')"
  by code_simp

theorem vlocation_required_counterexample:
  "VLOCATION \<notin> resolved row_no_units \<and>
   digest_spec row_no_units = Inl (RuntimeError ''UNITS is missing from spec.'') \<and>
   digest_spec row_no_units \<noteq> Inl KeyError"
  by (simp add: resolved_row_no_units digest_row_no_units)

section \<open>Mandatory options\<close>

lemma check_mandatory_find:
  "check_mandatory opts values =
     (case find (\<lambda>option. \<not> contains values option) opts of
        None \<Rightarrow> Inr ()
      | Some option \<Rightarrow> Inl (RuntimeError (name option @ '' is missing from spec.'')))"
  by (induction opts) auto

lemma find_missing_resolved:
  assumes "process_columns spec (PNone, PNone, []) = Inr (dims, ungridded, values)"
  shows "find (\<lambda>option. \<not> contains values option) get_mandatory_options =
         find (\<lambda>option. option \<notin> resolved spec) get_mandatory_options"
  by (rule find_cong)
     (auto simp: mandatory_options_eq process_columns_contains [OF assms])

text \<open>
  C5, amended. For every row whose columns all resolve to schema options: if some
  mandatory option has no column, digestion fails with the error
  \<^verbatim>\<open>name + " is missing from spec."\<close> for the first such option in schema order
  (\<^verbatim>\<open>SHORT_NAME\<close>, \<^verbatim>\<open>LONG_NAME\<close>, \<^verbatim>\<open>UNITS\<close>, \<^verbatim>\<open>DIMS\<close>), whatever the cells hold. So a row
  that omits units and has short name and long name columns fails with
  \<^verbatim>\<open>UNITS is missing from spec.\<close>; in general, when any mandatory option is absent,
  digestion fails with the missing-option error of an absent mandatory option.
\<close>

theorem missing_mandatory_option:
  assumes "all_resolve spec"
  shows "(\<forall>option. find (\<lambda>option. option \<notin> resolved spec) get_mandatory_options = Some option
            \<longrightarrow> digest_spec spec =
                  Inl (RuntimeError (name option @ '' is missing from spec.''))) \<and>
         (UNITS \<notin> resolved spec \<and> SHORT_NAME \<in> resolved spec \<and> LONG_NAME \<in> resolved spec
            \<longrightarrow> digest_spec spec = Inl (RuntimeError ''UNITS is missing from spec.'')) \<and>
         ((\<exists>option \<in> set get_mandatory_options. option \<notin> resolved spec) \<longrightarrow>
            (\<exists>option \<in> set get_mandatory_options. option \<notin> resolved spec \<and>
               digest_spec spec =
                 Inl (RuntimeError (name option @ '' is missing from spec.'')))) \<and>
         get_mandatory_options = [SHORT_NAME, LONG_NAME, UNITS, DIMS]"
proof -
  from process_columns_total [OF assms] obtain dims ungridded ov where
    pc: "process_columns spec (PNone, PNone, []) = Inr (dims, ungridded, ov)"
    by (metis prod_cases3)
  have first: "digest_spec spec = Inl (RuntimeError (name option @ '' is missing from spec.''))"
    if "find (\<lambda>option. option \<notin> resolved spec) get_mandatory_options = Some option"
    for option
    using that
    by (simp add: digest_spec_def pc check_mandatory_find find_missing_resolved [OF pc])
  have units: "digest_spec spec = Inl (RuntimeError ''UNITS is missing from spec.'')"
    if "UNITS \<notin> resolved spec" "SHORT_NAME \<in> resolved spec" "LONG_NAME \<in> resolved spec"
    using first [of UNITS] that by (simp add: mandatory_options_eq)
  have some: "\<exists>option \<in> set get_mandatory_options. option \<notin> resolved spec \<and>
               digest_spec spec = Inl (RuntimeError (name option @ '' is missing from spec.''))"
    if "\<exists>option \<in> set get_mandatory_options. option \<notin> resolved spec"
  proof -
    from that obtain option where
      f: "find (\<lambda>option. option \<notin> resolved spec) get_mandatory_options = Some option"
      by (cases "find (\<lambda>option. option \<notin> resolved spec) get_mandatory_options")
         (auto simp: find_None_iff)
    then have "option \<in> set get_mandatory_options \<and> option \<notin> resolved spec"
      by (auto simp: find_Some_iff)
    with first [OF f] show ?thesis by blast
  qed
  from first units some mandatory_options_eq show ?thesis by blast
qed

lemma resolved_row_units_only_missing:
  "resolved row_units_only_missing = {SHORT_NAME, LONG_NAME, DIMS}"
  by code_simp

lemma all_resolve_row_units_only_missing: "all_resolve row_units_only_missing"
  by code_simp

theorem missing_mandatory_option_witness:
  "all_resolve row_units_only_missing \<and>
   digest_spec row_units_only_missing = Inl (RuntimeError ''UNITS is missing from spec.'')"
  using missing_mandatory_option [OF all_resolve_row_units_only_missing]
  by (simp add: resolved_row_units_only_missing all_resolve_row_units_only_missing)

text \<open>
  As the claim words it, every row that omits the units column fails with the error that
  names units. The row below omits the units column and the short name column, its columns
  all resolve, and the error names \<^verbatim>\<open>SHORT_NAME\<close>.
\<close>

lemma digest_row_no_name_units:
  "digest_spec row_no_name_units = Inl (RuntimeError ''SHORT_NAME is missing from spec.'')"
  by code_simp

lemma resolved_row_no_name_units: "resolved row_no_name_units = {LONG_NAME, DIMS, VLOCATION}"
  by code_simp

lemma all_resolve_row_no_name_units: "all_resolve row_no_name_units"
  by code_simp

theorem missing_mandatory_option_counterexample:
  "all_resolve row_no_name_units \<and> UNITS \<notin> resolved row_no_name_units \<and>
   digest_spec row_no_name_units = Inl (RuntimeError ''SHORT_NAME is missing from spec.'') \<and>
   digest_spec row_no_name_units \<noteq> Inl (RuntimeError ''UNITS is missing from spec.'')"
  by (simp add: all_resolve_row_no_name_units resolved_row_no_name_units
        digest_row_no_name_units)

section \<open>Values of the mandatory options\<close>

lemma replace_nonempty: "s \<noteq> [] \<Longrightarrow> r \<noteq> [] \<Longrightarrow> replace c r s \<noteq> []"
  by (cases s) (auto simp: replace_def)

lemma mangle_name_null: "mangle_name v = PNone \<longleftrightarrow> v = []"
  by (simp add: mangle_name_def string_emit_def replace_nonempty)

lemma string_emit_null: "string_emit v = PNone \<longleftrightarrow> v = []"
  by (simp add: string_emit_def)

lemma make_internal_name_null: "make_internal_name v = PNone \<longleftrightarrow> v = []"
  by (simp add: make_internal_name_def)

lemma column_step_value:
  assumes "column_step option v (d, u, values) = (d', u', values')"
    and "k \<noteq> MANGLED_NAME" "k \<noteq> INTERNAL_NAME"
  shows "map_of values' k = (if option = k then Some (emit k v) else map_of values k)"
  using assms by (auto simp: column_step_def update_conv' split: if_splits)

lemma process_columns_value:
  assumes "process_columns spec (d, u, values) = Inr (d', u', values')"
    and "k \<noteq> MANGLED_NAME" "k \<noteq> INTERNAL_NAME"
  shows "map_of values' k =
           (case last_cell [k] spec of Some v \<Rightarrow> Some (emit k v) | None \<Rightarrow> map_of values k)"
  using assms(1)
proof (induction spec arbitrary: d u "values")
  case Nil
  then show ?case by simp
next
  case (Cons cv spec)
  obtain column v where cv: "cv = (column, v)" by (cases cv)
  from Cons.prems obtain option where
    opt: "Option_getitem (upper column) = Some option" and
    rest: "process_columns spec (column_step option v (d, u, values)) = Inr (d', u', values')"
    by (auto simp: cv split: option.splits)
  obtain d1 u1 values1 where st: "column_step option v (d, u, values) = (d1, u1, values1)"
    by (cases "column_step option v (d, u, values)")
  note step = column_step_value [OF st assms(2,3)]
  from Cons.IH [OF rest [unfolded st]] step show ?case
    by (auto simp: cv opt split: option.splits)
qed

lemma last_cell_resolved:
  "option \<in> resolved spec \<Longrightarrow> option \<in> set opts \<Longrightarrow> \<exists>v. last_cell opts spec = Some v"
proof (induction spec)
  case Nil
  then show ?case by (simp add: resolved_def map_filter_simps)
next
  case (Cons cv spec)
  obtain column v where cv: "cv = (column, v)" by (cases cv)
  from Cons show ?case
    by (cases "last_cell opts spec") (auto simp: cv resolved_Cons split: option.splits)
qed

text \<open>
  C4, amended. In every record that digestion produces, each of the four mandatory options
  (short name, long name, units, dims) is present as a key, and its value is what the
  option's emit function makes of the row's cell for that option. The dims value is never
  null (an empty or unrecognised dims cell is not accepted). The short name, long name and
  units values are each null exactly when the option's own cell is the empty string: such
  a cell is accepted and stored as null, and a non-empty cell gives a non-null value
  whatever the other cells hold.
\<close>

theorem mandatory_present:
  assumes "digest_spec spec = Inr values"
  shows "\<forall>option \<in> set get_mandatory_options.
           contains values option \<and>
           (\<exists>v. last_cell [option] spec = Some v \<and>
                getitem values option = Inr (emit option v) \<and>
                (emit option v = PNone \<longleftrightarrow> option \<noteq> DIMS \<and> v = []))"
proof
  fix option
  assume o: "option \<in> set get_mandatory_options"
  from digest_spec_InrD [OF assms] obtain dims ungridded ov rank where
    pc: "process_columns spec (PNone, PNone, []) = Inr (dims, ungridded, ov)" and
    cm: "check_mandatory get_mandatory_options ov = Inr ()" and
    cr: "compute_rank dims ungridded = Inr rank" and
    v: "values = AList.update RANK (PInt rank) ov"
    by blast
  from o have cases: "option = SHORT_NAME \<or> option = LONG_NAME \<or> option = UNITS \<or> option = DIMS"
    by (simp add: mandatory_options_eq)
  then have ne: "option \<noteq> MANGLED_NAME" "option \<noteq> INTERNAL_NAME" "option \<noteq> RANK"
    by auto
  have c: "contains ov option"
    using check_mandatory_contains [OF cm o] .
  then have "option \<in> resolved spec"
    using process_columns_contains [OF pc ne(1,2)] by simp
  from last_cell_resolved [OF this, of "[option]"] obtain cell where
    cell: "last_cell [option] spec = Some cell" by auto
  from process_columns_value [OF pc ne(1,2)] cell
  have m: "map_of ov option = Some (emit option cell)" by simp
  have present: "contains values option"
    using c ne(3) by (simp add: v contains_def update_conv')
  have g: "getitem values option = Inr (emit option cell)"
    using m ne(3) by (simp add: v getitem_def update_conv')
  have null: "emit option cell = PNone \<longleftrightarrow> option \<noteq> DIMS \<and> cell = []"
  proof (cases "option = DIMS")
    case True
    have "tracks (dims, ungridded, ov)"
      using process_columns_tracks [OF pc tracks_init] .
    then have "dims = emit DIMS cell"
      using m True by (simp add: tracks_def get_def)
    with cr compute_rank_PNone_dims True show ?thesis by auto
  next
    case False
    with cases show ?thesis
      by (auto simp: mangle_name_null string_emit_null)
  qed
  from present cell g null
  show "contains values option \<and>
        (\<exists>v. last_cell [option] spec = Some v \<and>
             getitem values option = Inr (emit option v) \<and>
             (emit option v = PNone \<longleftrightarrow> option \<noteq> DIMS \<and> v = []))"
    by simp
qed

lemma digest_row_empty_long_name:
  "digest_spec row_empty_long_name = Inr values_empty_long_name"
  by code_simp

lemma last_cells_row_empty_long_name:
  "last_cell [UNITS] row_empty_long_name = Some ''K''"
  "last_cell [LONG_NAME] row_empty_long_name = Some []"
  by code_simp+

theorem mandatory_present_witness:
  "digest_spec row_empty_long_name = Inr values_empty_long_name \<and>
   (\<exists>s. getitem values_empty_long_name UNITS = Inr (PStr s)) \<and>
   getitem values_empty_long_name LONG_NAME = Inr PNone"
proof -
  note t = mandatory_present [OF digest_row_empty_long_name, unfolded mandatory_options_eq]
  from t have "\<exists>v. last_cell [UNITS] row_empty_long_name = Some v \<and>
      getitem values_empty_long_name UNITS = Inr (emit UNITS v) \<and>
      (emit UNITS v = PNone \<longleftrightarrow> UNITS \<noteq> DIMS \<and> v = [])"
    by simp
  then have u: "getitem values_empty_long_name UNITS = Inr (emit UNITS ''K'') \<and>
      emit UNITS ''K'' \<noteq> PNone"
    by (simp add: last_cells_row_empty_long_name)
  from t have "\<exists>v. last_cell [LONG_NAME] row_empty_long_name = Some v \<and>
      getitem values_empty_long_name LONG_NAME = Inr (emit LONG_NAME v) \<and>
      (emit LONG_NAME v = PNone \<longleftrightarrow> LONG_NAME \<noteq> DIMS \<and> v = [])"
    by simp
  then have l: "getitem values_empty_long_name LONG_NAME = Inr PNone"
    by (simp add: last_cells_row_empty_long_name)
  from u have "\<exists>s. getitem values_empty_long_name UNITS = Inr (PStr s)"
    by (simp add: string_emit_def)
  with digest_row_empty_long_name l show ?thesis by (intro conjI)
qed

text \<open>
  As the claim words it, a mandatory value is non-null also when the raw cell is the empty
  string. The row below has an empty units cell: it is digested, and the units value of the
  record is null.
\<close>

lemma digest_row_empty_units: "digest_spec row_empty_units = Inr values_empty_units"
  by code_simp

theorem mandatory_present_counterexample:
  "mandatory UNITS \<and> digest_spec row_empty_units = Inr values_empty_units \<and>
   getitem values_empty_units UNITS = Inr PNone"
  by (simp add: digest_row_empty_units) (simp add: values_empty_units_def getitem_def)

section \<open>Aliases\<close>

lemma process_columns_respelled:
  "respelled spec1 spec2 \<Longrightarrow> process_columns spec1 st = process_columns spec2 st"
  unfolding respelled_def
proof (induction spec1 spec2 arbitrary: st rule: list_all2_induct)
  case Nil
  then show ?case by simp
next
  case (Cons cv1 spec1 cv2 spec2)
  obtain column1 v1 column2 v2 where cv: "cv1 = (column1, v1)" "cv2 = (column2, v2)"
    by (cases cv1, cases cv2)
  from Cons.hyps(1) have v: "v1 = v2"
    and r: "Option_getitem (upper column1) = Option_getitem (upper column2)"
    by (auto simp: cv)
  show ?case
    by (simp add: cv v r Cons.IH split: option.splits)
qed

lemma digest_spec_respelled:
  "respelled spec1 spec2 \<Longrightarrow> digest_spec spec1 = digest_spec spec2"
  by (simp add: digest_spec_def process_columns_respelled)

lemma digest_spec_derived_names:
  assumes "digest_spec spec = Inr values"
  shows "SHORT_NAME \<in> resolved spec \<and> contains values MANGLED_NAME \<and>
         contains values INTERNAL_NAME"
proof -
  from digest_spec_InrD [OF assms] obtain dims ungridded ov rank where
    pc: "process_columns spec (PNone, PNone, []) = Inr (dims, ungridded, ov)" and
    cm: "check_mandatory get_mandatory_options ov = Inr ()" and
    v: "values = AList.update RANK (PInt rank) ov"
    by blast
  have "contains ov SHORT_NAME"
    using check_mandatory_contains [OF cm] by (simp add: mandatory_options_eq)
  then have s: "SHORT_NAME \<in> resolved spec"
    using process_columns_contains [OF pc, of SHORT_NAME] by simp
  with process_columns_keys [OF pc] have "{MANGLED_NAME, INTERNAL_NAME} \<subseteq> keys ov"
    by simp
  then have "contains values MANGLED_NAME \<and> contains values INTERNAL_NAME"
    by (simp add: v contains_keys keys_update)
  with s show ?thesis by simp
qed

text \<open>
  C9. Digesting a row gives the same result (the same record, or the same failure) as
  digesting the row with columns respelled by another name of the same member of
  \<^verbatim>\<open>Option\<close>, in any letter case. The names come in pairs that resolve to one member:
  \<^verbatim>\<open>SHORT_NAME\<close> and \<^verbatim>\<open>NAME\<close>, \<^verbatim>\<open>LONG_NAME\<close> and \<^verbatim>\<open>LONG NAME\<close>, \<^verbatim>\<open>VLOCATION\<close> and
  \<^verbatim>\<open>VLOC\<close>, \<^verbatim>\<open>ADD2EXPORT\<close> and \<^verbatim>\<open>ADDEXP\<close>, \<^verbatim>\<open>UNGRIDDED\<close> and \<^verbatim>\<open>UNGRID\<close>,
  \<^verbatim>\<open>FRIENDLYTO\<close> and \<^verbatim>\<open>FRIEND2\<close>, \<^verbatim>\<open>PRECISION\<close> and \<^verbatim>\<open>PREC\<close>, \<^verbatim>\<open>NUM_SUBTILES\<close> and
  \<^verbatim>\<open>NUMSUBS\<close>, \<^verbatim>\<open>AVERAGING_INTERVAL\<close> and \<^verbatim>\<open>AVINT\<close>, \<^verbatim>\<open>CONDITION\<close> and \<^verbatim>\<open>COND\<close>.
  Every record that digestion produces comes from a row with a column that resolves to the
  short name, under either spelling, and carries the derived mangled and internal names.
\<close>

theorem alias_spellings_agree:
  assumes "respelled spec1 spec2"
  shows "digest_spec spec1 = digest_spec spec2 \<and>
         (\<forall>values. digest_spec spec1 = Inr values \<longrightarrow>
            SHORT_NAME \<in> resolved spec1 \<and> SHORT_NAME \<in> resolved spec2 \<and>
            contains values MANGLED_NAME \<and> contains values INTERNAL_NAME) \<and>
         (\<forall>n. Option_getitem n = Some SHORT_NAME \<longleftrightarrow> n = ''SHORT_NAME'' \<or> n = ''NAME'') \<and>
         (\<forall>n. Option_getitem n = Some LONG_NAME \<longleftrightarrow> n = ''LONG_NAME'' \<or> n = ''LONG NAME'') \<and>
         (\<forall>n. Option_getitem n = Some VLOCATION \<longleftrightarrow> n = ''VLOCATION'' \<or> n = ''VLOC'') \<and>
         (\<forall>n. Option_getitem n = Some ADD2EXPORT \<longleftrightarrow> n = ''ADD2EXPORT'' \<or> n = ''ADDEXP'') \<and>
         (\<forall>n. Option_getitem n = Some UNGRIDDED \<longleftrightarrow> n = ''UNGRIDDED'' \<or> n = ''UNGRID'') \<and>
         (\<forall>n. Option_getitem n = Some FRIENDLYTO \<longleftrightarrow> n = ''FRIENDLYTO'' \<or> n = ''FRIEND2'') \<and>
         (\<forall>n. Option_getitem n = Some PRECISION \<longleftrightarrow> n = ''PRECISION'' \<or> n = ''PREC'') \<and>
         (\<forall>n. Option_getitem n = Some NUM_SUBTILES \<longleftrightarrow>
               n = ''NUM_SUBTILES'' \<or> n = ''NUMSUBS'') \<and>
         (\<forall>n. Option_getitem n = Some AVERAGING_INTERVAL \<longleftrightarrow>
               n = ''AVERAGING_INTERVAL'' \<or> n = ''AVINT'') \<and>
         (\<forall>n. Option_getitem n = Some CONDITION \<longleftrightarrow> n = ''CONDITION'' \<or> n = ''COND'')"
proof -
  have eq: "digest_spec spec1 = digest_spec spec2"
    using assms by (rule digest_spec_respelled)
  have derived: "SHORT_NAME \<in> resolved spec1 \<and> SHORT_NAME \<in> resolved spec2 \<and>
      contains values MANGLED_NAME \<and> contains values INTERNAL_NAME"
    if "digest_spec spec1 = Inr values" for "values"
    using digest_spec_derived_names [OF that] digest_spec_derived_names [OF that [unfolded eq]]
    by simp
  have names:
    "Option_getitem n = Some SHORT_NAME \<longleftrightarrow> n = ''SHORT_NAME'' \<or> n = ''NAME''"
    "Option_getitem n = Some LONG_NAME \<longleftrightarrow> n = ''LONG_NAME'' \<or> n = ''LONG NAME''"
    "Option_getitem n = Some VLOCATION \<longleftrightarrow> n = ''VLOCATION'' \<or> n = ''VLOC''"
    "Option_getitem n = Some ADD2EXPORT \<longleftrightarrow> n = ''ADD2EXPORT'' \<or> n = ''ADDEXP''"
    "Option_getitem n = Some UNGRIDDED \<longleftrightarrow> n = ''UNGRIDDED'' \<or> n = ''UNGRID''"
    "Option_getitem n = Some FRIENDLYTO \<longleftrightarrow> n = ''FRIENDLYTO'' \<or> n = ''FRIEND2''"
    "Option_getitem n = Some PRECISION \<longleftrightarrow> n = ''PRECISION'' \<or> n = ''PREC''"
    "Option_getitem n = Some NUM_SUBTILES \<longleftrightarrow> n = ''NUM_SUBTILES'' \<or> n = ''NUMSUBS''"
    "Option_getitem n = Some AVERAGING_INTERVAL \<longleftrightarrow> n = ''AVERAGING_INTERVAL'' \<or> n = ''AVINT''"
    "Option_getitem n = Some CONDITION \<longleftrightarrow> n = ''CONDITION'' \<or> n = ''COND''"
    for n
    by (simp_all add: Option_getitem_def Option_names_def)
  from eq derived names show ?thesis by simp
qed

lemma respelled_rows: "respelled row_long_spelling row_short_spelling"
  by code_simp

lemma digest_row_long_spelling:
  "digest_spec row_long_spelling =
     Inr [(SHORT_NAME, PStr ([CHR 0x27] @ ''T'' @ [CHR 0x27] @ ''//trim(comp_name)//'' @
                             [CHR 0x27, CHR 0x27])),
          (MANGLED_NAME, PStr ([CHR 0x27] @ ''T'' @ [CHR 0x27] @ ''//trim(comp_name)//'' @
                               [CHR 0x27, CHR 0x27])),
          (INTERNAL_NAME, PStr ''T''),
          (LONG_NAME, PStr ([CHR 0x27] @ ''temp'' @ [CHR 0x27])),
          (UNITS, PStr ([CHR 0x27] @ ''K'' @ [CHR 0x27])), (DIMS, PStr ''MAPL_DimsVertOnly''),
          (VLOCATION, PStr ''MAPL_VlocationCenter''), (UNGRIDDED, PStr ''[a,b]''),
          (CONDITION, PStr ''flag''), (RANK, PInt 3)]"
  by code_simp

theorem alias_spellings_agree_witness:
  "respelled row_long_spelling row_short_spelling \<and>
   digest_spec row_long_spelling = digest_spec row_short_spelling \<and>
   (\<exists>values. digest_spec row_short_spelling = Inr values)"
proof -
  have eq: "digest_spec row_long_spelling = digest_spec row_short_spelling"
    by (rule alias_spellings_agree [OF respelled_rows, THEN conjunct1])
  have "\<exists>values. digest_spec row_long_spelling = Inr values"
    by (rule exI) (rule digest_row_long_spelling)
  with eq have "\<exists>values. digest_spec row_short_spelling = Inr values" by simp
  with respelled_rows eq show ?thesis by (intro conjI)
qed

section \<open>Boolean canonicalisation\<close>

lemma char_lower_whitespace_all: "\<forall>c \<in> set whitespace. char_lower c = c"
  by (simp add: whitespace_def char_lower_def uppercase_def lowercase_def)

lemma char_lower_whitespace: "c \<in> set whitespace \<Longrightarrow> char_lower c = c"
  using char_lower_whitespace_all by blast

lemma token_ends_all:
  "\<forall>t \<in> set (TRUE_VALUES @ FALSE_VALUES).
     t \<noteq> [] \<and> hd t \<notin> set whitespace \<and> last t \<notin> set whitespace"
  by (simp add: TRUE_VALUES_def FALSE_VALUES_def TRUE_VALUE_def FALSE_VALUE_def whitespace_def)

lemma token_ends:
  "t \<in> set TRUE_VALUES \<union> set FALSE_VALUES \<Longrightarrow>
   t \<noteq> [] \<and> hd t \<notin> set whitespace \<and> last t \<notin> set whitespace"
  using token_ends_all by (metis set_append)

lemma lower_ends:
  assumes "lower s = t" "t \<noteq> []" "hd t \<notin> set whitespace" "last t \<notin> set whitespace"
  shows "s \<noteq> [] \<and> hd s \<notin> set whitespace \<and> last s \<notin> set whitespace"
proof -
  from assms(1,2) have ne: "s \<noteq> []" by (auto simp: lower_def)
  have "hd t = char_lower (hd s)" "last t = char_lower (last s)"
    using assms(1) ne by (auto simp: lower_def hd_map last_map)
  with assms(3,4) char_lower_whitespace [of "hd s"] char_lower_whitespace [of "last s"] ne
  show ?thesis by auto
qed

lemma strip_chars_padded:
  assumes "s \<noteq> []" "hd s \<notin> set chars" "last s \<notin> set chars"
    and "set pre \<subseteq> set chars" "set post \<subseteq> set chars"
  shows "strip_chars chars (pre @ s @ post) = s"
proof -
  have drop_self: "dropWhile (\<lambda>c. c \<in> set chars) xs = xs" if "xs \<noteq> []" "hd xs \<notin> set chars"
    for xs using that by (cases xs) auto
  have 1: "dropWhile (\<lambda>c. c \<in> set chars) (pre @ s @ post) = s @ post"
    using assms(1,2,4) by (subst dropWhile_append2) (auto intro: drop_self)
  have 2: "dropWhile (\<lambda>c. c \<in> set chars) (rev post @ rev s) = rev s"
    using assms(1,3,5) by (subst dropWhile_append2) (auto intro: drop_self simp: hd_rev)
  show ?thesis
    by (simp add: strip_chars_def 1 2)
qed

lemma strip_padded_token:
  assumes "lower s \<in> set TRUE_VALUES \<union> set FALSE_VALUES" "blank pre" "blank post"
  shows "strip (pre @ s @ post) = s"
proof -
  from token_ends [OF assms(1)] lower_ends [of s "lower s"]
  have "s \<noteq> [] \<and> hd s \<notin> set whitespace \<and> last s \<notin> set whitespace" by simp
  with assms(2,3) show ?thesis
    unfolding strip_def
    by (intro strip_chars_padded) (auto simp: blank_def list_all_iff)
qed

lemma true_not_false: "\<forall>t \<in> set TRUE_VALUES. t \<notin> set FALSE_VALUES"
  by (simp add: TRUE_VALUES_def FALSE_VALUES_def TRUE_VALUE_def FALSE_VALUE_def)

lemma true_false_disjoint: "set TRUE_VALUES \<inter> set FALSE_VALUES = {}"
  using true_not_false by blast

text \<open>
  C6. Every string that is a recognised true token up to letter case, with any white space
  before and after it, is mapped to \<^verbatim>\<open>.true.\<close>; likewise every false token to
  \<^verbatim>\<open>.false.\<close>. A string that, stripped and lowered, is in neither set makes
  \<^verbatim>\<open>get_fortran_logical\<close> fail with a \<^verbatim>\<open>ValueError\<close>, and so does \<^verbatim>\<open>None\<close>.
\<close>

theorem get_fortran_logical_tokens:
  "(\<forall>s pre post. lower s \<in> set TRUE_VALUES \<and> blank pre \<and> blank post \<longrightarrow>
      get_fortran_logical (PStr (pre @ s @ post)) = Inr ''.true.'') \<and>
   (\<forall>s pre post. lower s \<in> set FALSE_VALUES \<and> blank pre \<and> blank post \<longrightarrow>
      get_fortran_logical (PStr (pre @ s @ post)) = Inr ''.false.'') \<and>
   (\<forall>s. lower (strip s) \<notin> set TRUE_VALUES \<union> set FALSE_VALUES \<longrightarrow>
      get_fortran_logical (PStr s) = Inl (ValueError (''Unrecognized logical: '' @ s))) \<and>
   (\<exists>msg. get_fortran_logical PNone = Inl (ValueError msg)) \<and>
   set TRUE_VALUES =
     {''.true.'', ''t'', ''true'', ''.t.'', ''yes'', ''y'', ''si'', ''oui'', ''sim''} \<and>
   set FALSE_VALUES =
     {''.false.'', ''f'', ''false'', ''.f.'', ''no'', ''n'', ''non'', ''nao''}"
proof -
  have t: "get_fortran_logical (PStr (pre @ s @ post)) = Inr ''.true.''"
    if "lower s \<in> set TRUE_VALUES" "blank pre" "blank post" for s pre post
    using that strip_padded_token [of s pre post]
    by (simp add: TRUE_VALUE_def)
  have f: "get_fortran_logical (PStr (pre @ s @ post)) = Inr ''.false.''"
    if "lower s \<in> set FALSE_VALUES" "blank pre" "blank post" for s pre post
  proof -
    from that(1) true_false_disjoint have "lower s \<notin> set TRUE_VALUES" by auto
    with that strip_padded_token [of s pre post] show ?thesis
      by (simp add: FALSE_VALUE_def)
  qed
  have other: "get_fortran_logical (PStr s) = Inl (ValueError (''Unrecognized logical: '' @ s))"
    if "lower (strip s) \<notin> set TRUE_VALUES \<union> set FALSE_VALUES" for s
    using that by simp
  have none: "\<exists>msg. get_fortran_logical PNone = Inl (ValueError msg)"
    by simp
  have sets: "set TRUE_VALUES =
      {''.true.'', ''t'', ''true'', ''.t.'', ''yes'', ''y'', ''si'', ''oui'', ''sim''}"
    "set FALSE_VALUES = {''.false.'', ''f'', ''false'', ''.f.'', ''no'', ''n'', ''non'', ''nao''}"
    by (simp_all add: TRUE_VALUES_def FALSE_VALUES_def TRUE_VALUE_def FALSE_VALUE_def
          insert_commute)
  show ?thesis
    by (intro conjI allI impI) (use t f other none sets in \<open>simp_all only:\<close>)
qed

lemma oui_is_true:
  "lower ''Oui'' \<in> set TRUE_VALUES \<and> blank [CHR 0xA0, CHR 0x20] \<and>
   blank [CHR 0x20, CHR 0x0A, CHR 0x85]"
  by (simp add: lower_def char_lower_def uppercase_def lowercase_def
        TRUE_VALUES_def TRUE_VALUE_def blank_def whitespace_def)

lemma nao_is_false:
  "lower ''NAO'' \<in> set FALSE_VALUES \<and> blank [CHR 0x09] \<and> blank []"
  by (simp add: lower_def char_lower_def uppercase_def lowercase_def
        FALSE_VALUES_def FALSE_VALUE_def blank_def whitespace_def)

lemma maybe_is_neither: "lower (strip ''maybe'') \<notin> set TRUE_VALUES \<union> set FALSE_VALUES"
  by (simp add: lower_def char_lower_def uppercase_def lowercase_def
        strip_def strip_chars_def whitespace_def
        TRUE_VALUES_def TRUE_VALUE_def FALSE_VALUES_def FALSE_VALUE_def)

theorem get_fortran_logical_tokens_witness:
  "get_fortran_logical (PStr ([CHR 0xA0, CHR 0x20] @ ''Oui'' @ [CHR 0x20, CHR 0x0A, CHR 0x85])) =
      Inr ''.true.'' \<and>
   get_fortran_logical (PStr ([CHR 0x09] @ ''NAO'' @ [])) = Inr ''.false.'' \<and>
   get_fortran_logical (PStr ''maybe'') = Inl (ValueError (''Unrecognized logical: '' @ ''maybe''))"
proof -
  note t = get_fortran_logical_tokens
  have 1: "get_fortran_logical (PStr ([CHR 0xA0, CHR 0x20] @ ''Oui'' @ [CHR 0x20, CHR 0x0A, CHR 0x85])) =
      Inr ''.true.''"
    by (rule t [THEN conjunct1, rule_format, OF oui_is_true])
  have 2: "get_fortran_logical (PStr ([CHR 0x09] @ ''NAO'' @ [])) = Inr ''.false.''"
    by (rule t [THEN conjunct2, THEN conjunct1, rule_format, OF nao_is_false])
  have 3: "get_fortran_logical (PStr ''maybe'') =
      Inl (ValueError (''Unrecognized logical: '' @ ''maybe''))"
    by (rule t [THEN conjunct2, THEN conjunct2, THEN conjunct1, rule_format, OF maybe_is_neither])
  from 1 2 3 show ?thesis by (intro conjI)
qed

section \<open>Indentation\<close>

lemma emit_header_state:
  "emit_header self = Inr (text, self') \<Longrightarrow>
   self' = self\<lparr>indent := indent self + (if truthy (condition self) then 3 else 0)\<rparr>"
  by (auto simp: emit_header_def split: if_splits sum.splits)

lemma emit_args_state: "emit_args self = Inr (text, self') \<Longrightarrow> self' = self"
  by (auto simp: emit_args_def split: sum.splits)

lemma emit_trailer_state:
  "emit_trailer nullify self = Inr (text, self') \<Longrightarrow>
   self' = self\<lparr>indent := indent self - (if truthy (condition self) then 3 else 0)\<rparr>"
  by (auto simp: emit_trailer_def split: if_splits sum.splits)

lemma emit_specs_state:
  assumes "emit_specs self = Inr (text, self')"
  shows "self' = self"
proof -
  from assms obtain h s1 a s2 t where
    h: "emit_header self = Inr (h, s1)" and a: "emit_args s1 = Inr (a, s2)" and
    t: "emit_trailer False s2 = Inr (t, self')"
    by (auto simp: emit_specs_def split: sum.splits prod.splits)
  from emit_args_state [OF a] have "s2 = s1" .
  with emit_trailer_state [OF t] emit_header_state [OF h] show ?thesis
    by simp
qed

lemma emit_declare_pointers_state:
  "emit_declare_pointers self = Inr (text, self') \<Longrightarrow> self' = self"
  by (auto simp: emit_declare_pointers_def split: sum.splits pyval.splits)

lemma emit_get_pointers_state:
  assumes "emit_get_pointers self = Inr (text, self')"
  shows "self' = self"
proof -
  from assms obtain h s1 t where
    h: "emit_header self = Inr (h, s1)" and t: "emit_trailer True s1 = Inr (t, self')"
    by (auto simp: emit_get_pointers_def split: sum.splits prod.splits)
  from emit_trailer_state [OF t] emit_header_state [OF h] show ?thesis
    by simp
qed

text \<open>
  C7. For every \<^verbatim>\<open>MAPL_DataSpec\<close>, with or without a condition, each of the three fragment
  emissions (registration, pointer declaration, pointer retrieval) that produces its text
  leaves the indent level, and indeed the whole object, as it was before.
\<close>

theorem indent_restored:
  "(\<forall>text self'. emit_specs self = Inr (text, self') \<longrightarrow>
      indent self' = indent self \<and> self' = self) \<and>
   (\<forall>text self'. emit_declare_pointers self = Inr (text, self') \<longrightarrow>
      indent self' = indent self \<and> self' = self) \<and>
   (\<forall>text self'. emit_get_pointers self = Inr (text, self') \<longrightarrow>
      indent self' = indent self \<and> self' = self)"
  using emit_specs_state emit_declare_pointers_state emit_get_pointers_state
  by blast

lemma dataspec_flag_emits:
  "\<not> isl (emit_specs dataspec_flag)"
  "\<not> isl (emit_declare_pointers dataspec_flag)"
  "\<not> isl (emit_get_pointers dataspec_flag)"
  by code_simp+

lemma not_isl_pair: "\<not> isl r \<Longrightarrow> \<exists>text self'. r = Inr (text, self')"
  by (cases r) auto

theorem indent_restored_witness:
  "truthy (condition dataspec_flag) \<and>
   (\<exists>text self'. emit_specs dataspec_flag = Inr (text, self') \<and>
      indent self' = indent dataspec_flag) \<and>
   (\<exists>text self'. emit_declare_pointers dataspec_flag = Inr (text, self') \<and>
      indent self' = indent dataspec_flag) \<and>
   (\<exists>text self'. emit_get_pointers dataspec_flag = Inr (text, self') \<and>
      indent self' = indent dataspec_flag)"
proof -
  note t = indent_restored [of dataspec_flag]
  have c: "truthy (condition dataspec_flag)"
    by (simp add: dataspec_flag_def)
  from not_isl_pair [OF dataspec_flag_emits(1)] obtain text1 s1 where
    e1: "emit_specs dataspec_flag = Inr (text1, s1)" by blast
  from not_isl_pair [OF dataspec_flag_emits(2)] obtain text2 s2 where
    e2: "emit_declare_pointers dataspec_flag = Inr (text2, s2)" by blast
  from not_isl_pair [OF dataspec_flag_emits(3)] obtain text3 s3 where
    e3: "emit_get_pointers dataspec_flag = Inr (text3, s3)" by blast
  from t e1 have i1: "indent s1 = indent dataspec_flag" by blast
  from t e2 have i2: "indent s2 = indent dataspec_flag" by blast
  from t e3 have i3: "indent s3 = indent dataspec_flag" by blast
  from c e1 i1 e2 i2 e3 i3 show ?thesis by blast
qed

section \<open>The registration fragment is produced\<close>

lemma str_add_str_or_none:
  "str_or_none v \<Longrightarrow> truthy v \<Longrightarrow> \<exists>s. str_add text v = Inr s"
  by (cases v) auto

lemma emit_header_succeeds:
  "str_or_none (condition self) \<Longrightarrow> \<exists>text self'. emit_header self = Inr (text, self')"
  using str_add_str_or_none [of "condition self" "newline self @ ''if (''"]
  by (auto simp: emit_header_def)

lemma emit_arg_succeeds:
  "str_or_none (get (spec_values self) option) \<Longrightarrow> \<exists>text. emit_arg self option = Inr text"
  using str_add_str_or_none [of "get (spec_values self) option" "name_key option @ ''=''"]
  by (auto simp: emit_arg_def)

lemma emit_args_loop_succeeds:
  "\<forall>option \<in> set opts. output_flag option \<longrightarrow> str_or_none (get (spec_values self) option) \<Longrightarrow>
   \<exists>text'. emit_args_loop self opts text = Inr text'"
proof (induction opts arbitrary: "text")
  case Nil
  show ?case by simp
next
  case (Cons option opts)
  show ?case
  proof (cases "output_flag option")
    case True
    with Cons.prems emit_arg_succeeds [of self option]
    obtain arg where "emit_arg self option = Inr arg" by auto
    with True Cons.IH [of "text @ arg"] Cons.prems show ?thesis by simp
  next
    case False
    with Cons.IH [of "text"] Cons.prems show ?thesis by simp
  qed
qed

lemma emit_specs_succeeds:
  assumes "str_or_none (condition self)"
    and "\<forall>option. output_flag option \<longrightarrow> str_or_none (get (spec_values self) option)"
  shows "\<exists>text. emit_specs self = Inr (text, self)"
proof -
  from emit_header_succeeds [OF assms(1)] obtain h s1 where
    h: "emit_header self = Inr (h, s1)" by blast
  from emit_header_state [OF h] have sv: "spec_values s1 = spec_values self" by simp
  let ?s5 = "s1\<lparr>indent := indent s1 + 5\<rparr>"
  have "\<forall>option \<in> set (map fst (spec_values s1)).
          output_flag option \<longrightarrow> str_or_none (get (spec_values ?s5) option)"
    using assms(2) by (simp add: sv)
  from emit_args_loop_succeeds [OF this] obtain body where
    "emit_args_loop ?s5 (map fst (spec_values s1))
       (''call MAPL_Add'' @ capitalize (category s1) @ ''Spec(gc,'' @ continue_line ?s5) =
     Inr body"
    by blast
  then obtain a s2 where a: "emit_args s1 = Inr (a, s2)"
    by (simp add: emit_args_def)
  obtain t s3 where t: "emit_trailer False s2 = Inr (t, s3)"
    by (cases "truthy (condition s2)") (simp_all add: emit_trailer_def)
  from h a t have e: "emit_specs self = Inr (h @ a @ t, s3)"
    by (simp add: emit_specs_def)
  from emit_specs_state [OF e] e show ?thesis by blast
qed

section \<open>Pointer declarations\<close>

lemma dimension_list_Suc:
  "dimension_list (Suc n) = '':'' @ concat (replicate n '',:'')"
  by (induction n) (simp_all add: dimension_list_def)

lemma emit_declare_pointers_condition:
  "text_of (emit_declare_pointers
     (self\<lparr>condition := c, spec_values := AList.update CONDITION v (spec_values self)\<rparr>)) =
   text_of (emit_declare_pointers self)"
  by (simp add: emit_declare_pointers_def text_of_def getitem_def get_def contains_def
        update_conv' newline_def split: option.splits pyval.splits sum.splits)

lemma emit_declare_pointers_no_condition:
  "text_of (emit_declare_pointers
     (self\<lparr>condition := PNone, spec_values := AList.delete CONDITION (spec_values self)\<rparr>)) =
   text_of (emit_declare_pointers self)"
  by (simp add: emit_declare_pointers_def text_of_def getitem_def get_def contains_def
        delete_conv' newline_def split: option.splits pyval.splits sum.splits)

text \<open>The declaration for an object with an integer rank of at least 1.\<close>

lemma emit_declare_pointers_named:
  assumes "getitem (spec_values self) RANK = Inr (PInt rank)" and "1 \<le> rank"
    and "internal_name self = PStr ident"
  shows "emit_declare_pointers self =
           Inr (newline self @ ''real'' @
                (if contains (spec_values self) PRECISION
                 then ''(kind='' @ str (get (spec_values self) PRECISION) @ '')'' else []) @
                '', pointer, dimension('' @ dimension_list (nat rank) @ '') :: '' @ ident,
                self)"
proof -
  from assms(2) obtain n where n: "nat rank = Suc n" "nat (rank - 1) = n"
    by (cases "nat rank") auto
  show ?thesis
    by (simp add: emit_declare_pointers_def assms(1,3) n dimension_list_Suc)
qed

lemma emit_declare_pointers_unnamed:
  assumes "getitem (spec_values self) RANK = Inr (PInt rank)"
    and "internal_name self = PNone"
  shows "emit_declare_pointers self = Inl TypeError"
  by (simp add: emit_declare_pointers_def assms)

text \<open>The rank that digestion stores is an integer and at least 1.\<close>

lemma digest_spec_rank_positive:
  assumes "digest_spec spec = Inr values"
  shows "\<exists>rank. getitem values RANK = Inr (PInt rank) \<and> 1 \<le> rank"
proof -
  from digest_spec_InrD [OF assms] obtain dims ungridded ov rank where
    cr: "compute_rank dims ungridded = Inr rank" and
    v: "values = AList.update RANK (PInt rank) ov"
    by blast
  from cr have "1 \<le> rank"
    by (auto simp: compute_rank_def RANKS_def DIMS_OPTIONS_def
          split: if_splits pyval.splits sum.splits)
  then show ?thesis
    by (simp add: v getitem_def update_conv')
qed

text \<open>
  The internal name that digestion stores: \<^verbatim>\<open>make_internal_name\<close> of the cell of the last
  column that resolves to the short name or is the column \<^verbatim>\<open>INTERNAL_NAME\<close> itself.
\<close>

lemma column_step_internal_name:
  assumes "column_step option v (d, u, values) = (d', u', values')"
  shows "map_of values' INTERNAL_NAME =
           (if option \<in> set [SHORT_NAME, INTERNAL_NAME] then Some (make_internal_name v)
            else map_of values INTERNAL_NAME)"
  using assms by (auto simp: column_step_def update_conv' split: if_splits)

lemma process_columns_internal_name:
  assumes "process_columns spec (d, u, values) = Inr (d', u', values')"
  shows "map_of values' INTERNAL_NAME =
           (case last_cell [SHORT_NAME, INTERNAL_NAME] spec of
              Some v \<Rightarrow> Some (make_internal_name v)
            | None \<Rightarrow> map_of values INTERNAL_NAME)"
  using assms
proof (induction spec arbitrary: d u "values")
  case Nil
  then show ?case by simp
next
  case (Cons cv spec)
  obtain column v where cv: "cv = (column, v)" by (cases cv)
  from Cons.prems obtain option where
    opt: "Option_getitem (upper column) = Some option" and
    rest: "process_columns spec (column_step option v (d, u, values)) = Inr (d', u', values')"
    by (auto simp: cv split: option.splits)
  obtain d1 u1 values1 where st: "column_step option v (d, u, values) = (d1, u1, values1)"
    by (cases "column_step option v (d, u, values)")
  note step = column_step_internal_name [OF st]
  from Cons.IH [OF rest [unfolded st]] step show ?case
    by (auto simp: cv opt split: option.splits)
qed

lemma digest_spec_internal_name:
  assumes "digest_spec spec = Inr values"
  shows "\<exists>v. last_cell [SHORT_NAME, INTERNAL_NAME] spec = Some v \<and>
             getitem values INTERNAL_NAME = Inr (make_internal_name v) \<and>
             contains values MANGLED_NAME"
proof -
  from digest_spec_InrD [OF assms] obtain dims ungridded ov rank where
    pc: "process_columns spec (PNone, PNone, []) = Inr (dims, ungridded, ov)" and
    v: "values = AList.update RANK (PInt rank) ov"
    by blast
  from digest_spec_derived_names [OF assms] have "SHORT_NAME \<in> resolved spec"
    and mn: "contains values MANGLED_NAME" by simp_all
  from last_cell_resolved [OF this(1), of "[SHORT_NAME, INTERNAL_NAME]"] obtain cell where
    cell: "last_cell [SHORT_NAME, INTERNAL_NAME] spec = Some cell" by auto
  from process_columns_internal_name [OF pc] cell
  have "map_of ov INTERNAL_NAME = Some (make_internal_name cell)" by simp
  then have "getitem values INTERNAL_NAME = Inr (make_internal_name cell)"
    by (simp add: v getitem_def update_conv')
  with cell mn show ?thesis by simp
qed

lemma count_colons: "count_list (dimension_list n) (CHR '':'') = n"
proof (cases n)
  case 0
  then show ?thesis by (simp add: dimension_list_def)
next
  case (Suc m)
  have "count_list (concat (replicate k '',:'')) (CHR '':'') = k" for k
    by (induction k) simp_all
  then show ?thesis by (simp add: Suc dimension_list_Suc)
qed

lemma MAPL_DataSpec_init_fields:
  assumes "MAPL_DataSpec_init cat values = Inr self"
  shows "spec_values self = values" "getitem values INTERNAL_NAME = Inr (internal_name self)"
    "indent self = 3" "category self = cat" "condition self = get values CONDITION"
  using assms by (auto simp: MAPL_DataSpec_init_def split: sum.splits)

lemma MAPL_DataSpec_init_succeeds:
  assumes "contains values MANGLED_NAME" "contains values INTERNAL_NAME"
  shows "\<exists>self. MAPL_DataSpec_init cat values = Inr self"
  using assms by (auto simp: MAPL_DataSpec_init_def contains_def getitem_def)

text \<open>
  C8, amended. For every record that digestion produces, the object
  \<^verbatim>\<open>MAPL_DataSpec(category, record)\<close> is built, its rank is an integer \<open>rank \<ge> 1\<close>, and its
  internal name is \<^verbatim>\<open>make_internal_name\<close> of the cell that sets it: the row's short-name
  cell (or the cell of a later column \<^verbatim>\<open>INTERNAL_NAME\<close>). When that cell is not empty, the
  pointer declaration is the text
  \<^verbatim>\<open>real[(kind=precision)], pointer, dimension(:,...,:) :: internal_name\<close> on a new line,
  with exactly \<open>rank\<close> dimensions, the kind qualifier being there exactly when the record has
  a precision key. When that cell is empty, the internal name is null and the emission
  raises a \<^verbatim>\<open>TypeError\<close>, so there is no fragment. The text never depends on the condition:
  it is the same when the record is given any condition and when the condition is removed.
\<close>

theorem declare_pointers_text:
  assumes "digest_spec spec = Inr values"
  shows "\<exists>self rank cell.
           MAPL_DataSpec_init cat values = Inr self \<and>
           getitem values RANK = Inr (PInt rank) \<and> 1 \<le> rank \<and>
           last_cell [SHORT_NAME, INTERNAL_NAME] spec = Some cell \<and>
           internal_name self = make_internal_name cell \<and>
           (cell \<noteq> [] \<longrightarrow>
              emit_declare_pointers self =
                Inr (newline self @ ''real'' @
                     (if contains values PRECISION
                      then ''(kind='' @ str (get values PRECISION) @ '')'' else []) @
                     '', pointer, dimension('' @ dimension_list (nat rank) @ '') :: '' @
                     replace (CHR ''*'') [] cell,
                     self)) \<and>
           count_list (dimension_list (nat rank)) (CHR '':'') = nat rank \<and>
           (cell = [] \<longrightarrow> emit_declare_pointers self = Inl TypeError) \<and>
           (\<forall>c v. text_of (emit_declare_pointers
              (self\<lparr>condition := c,
                    spec_values := AList.update CONDITION v (spec_values self)\<rparr>)) =
              text_of (emit_declare_pointers self)) \<and>
           text_of (emit_declare_pointers
              (self\<lparr>condition := PNone,
                    spec_values := AList.delete CONDITION (spec_values self)\<rparr>)) =
              text_of (emit_declare_pointers self)"
proof -
  from digest_spec_rank_positive [OF assms] obtain rank where
    rank: "getitem values RANK = Inr (PInt rank)" "1 \<le> rank" by blast
  from digest_spec_internal_name [OF assms] obtain cell where
    cell: "last_cell [SHORT_NAME, INTERNAL_NAME] spec = Some cell" and
    g: "getitem values INTERNAL_NAME = Inr (make_internal_name cell)" and
    mn: "contains values MANGLED_NAME"
    by blast
  from g have "contains values INTERNAL_NAME"
    by (auto simp: getitem_def contains_def split: option.splits)
  from MAPL_DataSpec_init_succeeds [OF mn this] obtain self where
    init: "MAPL_DataSpec_init cat values = Inr self" by blast
  note f = MAPL_DataSpec_init_fields [OF init]
  from f(2) g have name: "internal_name self = make_internal_name cell" by simp
  have r: "getitem (spec_values self) RANK = Inr (PInt rank)"
    using rank(1) by (simp add: f(1))
  have named: "emit_declare_pointers self =
      Inr (newline self @ ''real'' @
           (if contains values PRECISION
            then ''(kind='' @ str (get values PRECISION) @ '')'' else []) @
           '', pointer, dimension('' @ dimension_list (nat rank) @ '') :: '' @
           replace (CHR ''*'') [] cell, self)"
    if "cell \<noteq> []"
    using emit_declare_pointers_named [OF r rank(2), of "replace (CHR ''*'') [] cell"] that
    by (simp add: name make_internal_name_def f(1))
  have unnamed: "emit_declare_pointers self = Inl TypeError" if "cell = []"
    using emit_declare_pointers_unnamed [OF r] that
    by (simp add: name make_internal_name_def)
  from init rank cell name named unnamed count_colons [of "nat rank"]
    emit_declare_pointers_condition [where self = self]
    emit_declare_pointers_no_condition [where self = self]
  show ?thesis
    by (intro exI [of _ self] exI [of _ rank] exI [of _ cell]) simp
qed

lemma digest_row_precision: "digest_spec row_precision = Inr values_precision"
  by code_simp

lemma last_cell_row_precision:
  "last_cell [SHORT_NAME, INTERNAL_NAME] row_precision = Some ''T*''"
  by code_simp

theorem declare_pointers_text_witness:
  "\<exists>self. MAPL_DataSpec_init ''import'' values_precision = Inr self \<and>
     emit_declare_pointers self =
       Inr ([CHR 0x0A] @ ''   real(kind=R8), pointer, dimension(:,:,:) :: T'', self)"
proof -
  from declare_pointers_text [OF digest_row_precision, of "''import''"]
  obtain self rank cell where
    init: "MAPL_DataSpec_init ''import'' values_precision = Inr self" and
    rank: "getitem values_precision RANK = Inr (PInt rank)" and
    cell: "last_cell [SHORT_NAME, INTERNAL_NAME] row_precision = Some cell" and
    e: "cell \<noteq> [] \<longrightarrow>
          emit_declare_pointers self =
            Inr (newline self @ ''real'' @
                 (if contains values_precision PRECISION
                  then ''(kind='' @ str (get values_precision PRECISION) @ '')'' else []) @
                 '', pointer, dimension('' @ dimension_list (nat rank) @ '') :: '' @
                 replace (CHR ''*'') [] cell, self)"
    by blast
  from cell have c: "cell = ''T*''" by (simp add: last_cell_row_precision)
  from rank have r: "rank = 3" by (simp add: values_precision_def getitem_def)
  have n: "newline self = [CHR 0x0A] @ ''   ''"
    using MAPL_DataSpec_init_fields(3) [OF init] by (simp add: newline_def eval_nat_numeral)
  have p: "contains values_precision PRECISION"
    "get values_precision PRECISION = PStr ''R8''"
    by (simp_all add: values_precision_def contains_def get_def)
  have d: "dimension_list 3 = '':,:,:''"
    by (simp add: dimension_list_def eval_nat_numeral)
  from e have "emit_declare_pointers self =
      Inr ([CHR 0x0A] @ ''   real(kind=R8), pointer, dimension(:,:,:) :: T'', self)"
    by (simp add: c r n p d replace_def)
  with init show ?thesis by blast
qed

text \<open>
  As the claim words it, every record has a pointer declaration naming its internal name.
  The row below has an empty short-name cell: it is digested with a null internal name, and
  the emission of the declaration raises a \<^verbatim>\<open>TypeError\<close>.
\<close>

lemma digest_row_empty_name: "digest_spec row_empty_name = Inr values_empty_name"
  by code_simp

lemma init_empty_name:
  "MAPL_DataSpec_init ''import'' values_empty_name = Inr dataspec_empty_name"
  by (simp add: MAPL_DataSpec_init_def values_empty_name_def dataspec_empty_name_def
        getitem_def get_def)

lemma emit_declare_pointers_empty_name:
  "emit_declare_pointers dataspec_empty_name = Inl TypeError"
  by (simp add: emit_declare_pointers_def dataspec_empty_name_def values_empty_name_def
        getitem_def get_def contains_def)

theorem declare_pointers_text_counterexample:
  "digest_spec row_empty_name = Inr values_empty_name \<and>
   MAPL_DataSpec_init ''import'' values_empty_name = Inr dataspec_empty_name \<and>
   emit_declare_pointers dataspec_empty_name = Inl TypeError"
  by (intro conjI digest_row_empty_name init_empty_name emit_declare_pointers_empty_name)

end
